theory Spec2Isabelle
  imports Main "HOL-Library.Sublist" "HOL-Library.AList" "HOL-Library.List_Lexorder"
    "HOL-Library.Code_Target_Nat"
begin

section \<open>Strings\<close>

text \<open>
  A Python string is the list of its code points, so that \<open>len\<close>, slices and comparisons
  count what Python counts.  \<open>U\<close> turns an ASCII literal into such a list.
\<close>

type_synonym ustring = "nat list"

definition U :: "string \<Rightarrow> ustring" where
  "U s = map of_char s"

text \<open>
  Single characters are written by number: 10 is LF, 13 CR, 34 the double quote, 39 the
  apostrophe, 46 the dot, 47 the slash, 92 the backslash and 0xA0 the no-break space.
\<close>

text \<open>
  \<open>str.strip()\<close> removes the characters for which \<open>str.isspace\<close> holds: those of
  general category Zs or of bidirectional class WS, B or S, which are TAB to CR,
  0x1C to 0x1F, the blank, U+0085, U+00A0, U+1680, U+2000 to U+200A, U+2028, U+2029,
  U+202F, U+205F and U+3000.
\<close>

definition is_space :: "nat \<Rightarrow> bool" where
  "is_space c =
     ((9 \<le> c \<and> c \<le> 13) \<or> (28 \<le> c \<and> c \<le> 32) \<or> c = 0x85 \<or> c = 0xA0 \<or> c = 0x1680
      \<or> (0x2000 \<le> c \<and> c \<le> 0x200A) \<or> c = 0x2028 \<or> c = 0x2029 \<or> c = 0x202F
      \<or> c = 0x205F \<or> c = 0x3000)"

definition lstrip :: "ustring \<Rightarrow> ustring" where
  "lstrip s = dropWhile is_space s"

definition rstrip :: "ustring \<Rightarrow> ustring" where
  "rstrip s = rev (dropWhile is_space (rev s))"

definition strip :: "ustring \<Rightarrow> ustring" where
  "strip s = rstrip (lstrip s)"

text \<open>\<open>s.lstrip(chars)\<close> and \<open>s.strip(chars)\<close> with an explicit character set.\<close>

definition lstrip_chars :: "ustring \<Rightarrow> ustring \<Rightarrow> ustring" where
  "lstrip_chars cs s = dropWhile (\<lambda>c. c \<in> set cs) s"

definition strip_chars :: "ustring \<Rightarrow> ustring \<Rightarrow> ustring" where
  "strip_chars cs s = rev (lstrip_chars cs (rev (lstrip_chars cs s)))"

definition startswith :: "ustring \<Rightarrow> ustring \<Rightarrow> bool" where
  "startswith s pre = (take (length pre) s = pre)"

text \<open>\<open>s.split(sep)\<close> for a one-character separator.\<close>

fun split_on :: "nat \<Rightarrow> ustring \<Rightarrow> ustring list" where
  "split_on sep [] = [[]]"
| "split_on sep (c # cs) =
     (if c = sep then [] # split_on sep cs
      else (case split_on sep cs of
              [] \<Rightarrow> [[c]]
            | w # ws \<Rightarrow> (c # w) # ws))"

text \<open>The number of bytes of the UTF-8 form of a text, and the texts that have one.\<close>

definition utf8_len :: "ustring \<Rightarrow> nat" where
  "utf8_len s = sum_list (map (\<lambda>c. if c < 0x80 then 1 else if c < 0x800 then 2
                                   else if c < 0x10000 then 3 else 4) s)"

definition encodable :: "ustring \<Rightarrow> bool" where
  "encodable s = (\<forall>c \<in> set s. \<not> (0xD800 \<le> c \<and> c \<le> 0xDFFF))"

text \<open>A sample of \<open>str.lower\<close>, right on ASCII text.\<close>

definition ascii_lower :: "ustring \<Rightarrow> ustring" where
  "ascii_lower s = map (\<lambda>c. if 65 \<le> c \<and> c \<le> 90 then c + 32 else c) s"

section \<open>Paths\<close>

text \<open>
  An absolute POSIX path is the list of its components below the root; \<open>[]\<close> is the
  root itself.  The file system modelled below has no symbolic links, so
  \<open>Path.resolve()\<close> is the lexical removal of \<open>..\<close> components (at the root \<open>..\<close>
  stays at the root).
\<close>

type_synonym path = "ustring list"

definition str_path :: "path \<Rightarrow> ustring" where
  "str_path p = (if p = [] then (U ''/'') else concat (map (\<lambda>c. (U ''/'') @ c) p))"

text \<open>The components pathlib keeps of a relative path string: empty ones and \<open>.\<close> go.\<close>

definition parse_parts :: "ustring \<Rightarrow> ustring list" where
  "parse_parts s = filter (\<lambda>c. c \<noteq> [] \<and> c \<noteq> (U ''.'')) (split_on (47::nat) s)"

definition joinpath :: "path \<Rightarrow> ustring \<Rightarrow> path" where
  "joinpath base rel = base @ parse_parts rel"

definition resolve :: "path \<Rightarrow> path" where
  "resolve p = foldl (\<lambda>acc c. if c = (U ''..'') then butlast acc else acc @ [c]) [] p"

definition path_name :: "path \<Rightarrow> ustring" where
  "path_name p = (if p = [] then [] else last p)"

definition path_parent :: "path \<Rightarrow> path" where
  "path_parent p = butlast p"

section \<open>Exceptions, values, configuration\<close>

text \<open>
  An error of the operating system carries its kind and the file names of the call, as
  \<open>OSError.filename\<close> and \<open>filename2\<close> do.
\<close>

datatype oskind = ENOENT | EEXIST | EISDIR | ENOTDIR | EBUSY | EINVAL | ENOTEMPTY

datatype exn =
    ValueError ustring
  | TypeError ustring
  | RuntimeError ustring
  | RequestException ustring
  | AttributeError ustring
  | UnicodeEncodeError ustring
  | EOFError
  | OSErr oskind "ustring list" "ustring list option"
  | ShutilError ustring
  | SameFileError "ustring list" "ustring list"

text \<open>The values of a tool result and of a decoded JSON text.\<close>

datatype pyval =
    VNone
  | VBool bool
  | VInt int
  | VStr ustring
  | VList "pyval list"
  | VDict "(ustring \<times> pyval) list"

type_synonym tool_result = "(ustring \<times> pyval) list"

record config =
  WORKSPACE :: path
  APPROVAL_REQUIRED :: bool
  RETRIES :: nat
  SYSTEM_INSTRUCTIONS :: ustring

text \<open>
  Library functions and constants the program uses and this development does not
  define.  Every theorem below holds for all of them.
  \<^item> \<open>json_loads\<close>: \<open>json.loads\<close>, \<open>None\<close> when it raises; \<open>json_error\<close>: the text of that
    exception; \<open>json_dumps\<close>: \<open>json.dumps(ensure_ascii=False)\<close>; \<open>py_repr\<close>: \<open>repr\<close>.
  \<^item> \<open>re.match\<close> with the three patterns of the router, giving the groups it reads:
    \<open>re_crea\<close> for
    \<^verbatim>\<open>(?i)^\s*crea\s+el\s+archivo\s+(.+?)\s+con\s+el\s+contenido:\s*(.+)\s*$\<close>
    (groups 1 and 2), \<open>re_lista\<close> for \<^verbatim>\<open>(?i)^\s*lista\s+los\s+archivos\s*$\<close>, and
    \<open>re_lee\<close> for \<^verbatim>\<open>(?i)^\s*(lee|leer)\s+(.+?)\s*$\<close> (group 2).
  \<^item> \<open>str_lower\<close>: \<open>str.lower\<close>, the lower-casing of Unicode.
  \<^item> \<open>os_linesep\<close>: \<open>os.linesep\<close>, LF on a POSIX host and CR LF on Windows; a text-mode
    write puts it in place of every LF.
  \<^item> \<open>os_error_str\<close>: \<open>str(e)\<close> of an \<open>OSError\<close> of the given kind and file names, in the
    host's words; \<open>codec_error_str\<close>: \<open>str(e)\<close> of the \<open>UnicodeEncodeError\<close> for a text
    with a lone surrogate.
\<close>

record lib =
  json_loads :: "ustring \<Rightarrow> pyval option"
  json_error :: "ustring \<Rightarrow> ustring"
  json_dumps :: "pyval \<Rightarrow> ustring"
  py_repr :: "pyval \<Rightarrow> ustring"
  re_crea :: "ustring \<Rightarrow> (ustring \<times> ustring) option"
  re_lista :: "ustring \<Rightarrow> bool"
  re_lee :: "ustring \<Rightarrow> ustring option"
  str_lower :: "ustring \<Rightarrow> ustring"
  os_linesep :: ustring
  os_error_str :: "oskind \<Rightarrow> ustring list \<Rightarrow> ustring list option \<Rightarrow> ustring"
  codec_error_str :: "ustring \<Rightarrow> ustring"

section \<open>PathGuard\<close>

definition a_acute :: ustring where
  "a_acute = [0xE1]"

definition msg_outside :: ustring where
  "msg_outside = (U ''Ruta inv'') @ a_acute @ (U ''lida: fuera del workspace.'')"

definition safe_path :: "config \<Rightarrow> ustring \<Rightarrow> exn + path" where
  "safe_path cfg rel_path =
     (let rel = lstrip_chars [(92::nat), (47::nat)] (strip rel_path);
          p = resolve (joinpath (WORKSPACE cfg) rel)
      in if \<not> startswith (str_path p) (str_path (WORKSPACE cfg))
         then Inl (ValueError msg_outside)
         else Inr p)"

text \<open>A path is inside the workspace when the root's components are a prefix of its own.\<close>

definition inside :: "config \<Rightarrow> path \<Rightarrow> bool" where
  "inside cfg p = prefix (WORKSPACE cfg) p"

definition cfg0 :: config where
  "cfg0 = \<lparr>WORKSPACE = [(U ''home''), (U ''u''), (U ''AGENT_WORKSPACE'')], APPROVAL_REQUIRED = True, RETRIES = 2,
           SYSTEM_INSTRUCTIONS = (U ''Eres un asistente con herramientas.'')\<rparr>"

section \<open>The file system, the operator and the world\<close>

text \<open>
  The file system is a table from absolute paths to nodes, in the order the operating
  system lists them.  There are no symbolic links, no hard links and no permissions;
  the root is always a directory.
\<close>

datatype node = File ustring | Dir

type_synonym filesystem = "(path \<times> node) list"

definition lookup :: "filesystem \<Rightarrow> path \<Rightarrow> node option" where
  "lookup f p = (if p = [] then Some Dir else map_of f p)"

definition path_exists :: "filesystem \<Rightarrow> path \<Rightarrow> bool" where
  "path_exists f p = (lookup f p \<noteq> None)"

definition is_dir :: "filesystem \<Rightarrow> path \<Rightarrow> bool" where
  "is_dir f p = (lookup f p = Some Dir)"

definition is_file :: "filesystem \<Rightarrow> path \<Rightarrow> bool" where
  "is_file f p = (case lookup f p of Some (File c) \<Rightarrow> True | _ \<Rightarrow> False)"

text \<open>
  The operating system walks the directories above a path before it acts on it: a
  missing one is ENOENT, a regular file in the way is ENOTDIR.
\<close>

fun walk :: "filesystem \<Rightarrow> path \<Rightarrow> path \<Rightarrow> oskind option" where
  "walk f pre [] = None"
| "walk f pre (c # cs) =
     (case lookup f (pre @ [c]) of
        None \<Rightarrow> Some ENOENT
      | Some (File x) \<Rightarrow> Some ENOTDIR
      | Some Dir \<Rightarrow> walk f (pre @ [c]) cs)"

definition parent_error :: "filesystem \<Rightarrow> path \<Rightarrow> oskind option" where
  "parent_error f p = walk f [] (butlast p)"

text \<open>A table is well formed when every entry can be reached and no path is listed twice.\<close>

definition wf_fs :: "filesystem \<Rightarrow> bool" where
  "wf_fs f = (distinct (map fst f) \<and> (\<forall>(p, n) \<in> set f. p \<noteq> [] \<and> parent_error f p = None))"

text \<open>The system calls give the kind of their error; the callers add the file names.\<close>

definition os_mkdir :: "path \<Rightarrow> filesystem \<Rightarrow> oskind + filesystem" where
  "os_mkdir p f =
     (case parent_error f p of
        Some k \<Rightarrow> Inl k
      | None \<Rightarrow> if path_exists f p then Inl EEXIST else Inr (AList.update p Dir f))"

text \<open>
  \<open>Path.mkdir(parents=True, exist_ok=True)\<close>: try \<open>os.mkdir\<close>; on ENOENT make the
  parent the same way and try once more; on any other error accept an existing
  directory.  The table comes back also when the call raises, since ancestors may have
  been made by then.
\<close>

function path_mkdir :: "path \<Rightarrow> filesystem \<Rightarrow> exn option \<times> filesystem" where
  "path_mkdir p f =
     (case os_mkdir p f of
        Inr f1 \<Rightarrow> (None, f1)
      | Inl k \<Rightarrow>
          if k = ENOENT then
            (if p = [] then (Some (OSErr k p None), f)
             else (case path_mkdir (butlast p) f of
                     (Some e', f') \<Rightarrow> (Some e', f')
                   | (None, f') \<Rightarrow>
                       (case os_mkdir p f' of
                          Inr f2 \<Rightarrow> (None, f2)
                        | Inl k2 \<Rightarrow>
                            if k2 \<noteq> ENOENT \<and> is_dir f' p then (None, f')
                            else (Some (OSErr k2 p None), f'))))
          else if is_dir f p then (None, f) else (Some (OSErr k p None), f))"
  by pat_completeness auto
termination
  by (relation "measure (\<lambda>(p, f). length p)") auto

declare path_mkdir.simps [simp del]

text \<open>
  \<open>open(p, 'w')\<close> with a write of the whole content, and \<open>open(p, 'r')\<close> with a read.  A
  regular file holds the text that its bytes decode to.
\<close>

definition write_file_node :: "path \<Rightarrow> ustring \<Rightarrow> filesystem \<Rightarrow> oskind + filesystem" where
  "write_file_node p content f =
     (case parent_error f p of
        Some k \<Rightarrow> Inl k
      | None \<Rightarrow> if is_dir f p then Inl EISDIR
                else Inr (AList.update p (File content) f))"

definition read_file_node :: "path \<Rightarrow> filesystem \<Rightarrow> oskind + ustring" where
  "read_file_node p f =
     (case parent_error f p of
        Some k \<Rightarrow> Inl k
      | None \<Rightarrow> (case lookup f p of
                   None \<Rightarrow> Inl ENOENT
                 | Some Dir \<Rightarrow> Inl EISDIR
                 | Some (File c) \<Rightarrow> Inr c))"

text \<open>
  Text mode.  A write puts \<open>os.linesep\<close> in place of every LF; a read has universal
  newlines: CR LF and a lone CR are read as LF.
\<close>

definition newline_out :: "lib \<Rightarrow> ustring \<Rightarrow> ustring" where
  "newline_out lb s = concat (map (\<lambda>c. if c = 10 then os_linesep lb else [c]) s)"

fun universal_newlines :: "ustring \<Rightarrow> ustring" where
  "universal_newlines [] = []"
| "universal_newlines [c] = (if c = 13 then [10] else [c])"
| "universal_newlines (c # d # cs) =
     (if c = 13 then
        (if d = 10 then 10 # universal_newlines cs
         else 10 # universal_newlines (d # cs))
      else c # universal_newlines (d # cs))"

text \<open>
  \<open>Path.write_text(data, encoding="utf-8")\<close> opens the file, which creates or empties
  it, and then encodes the text: a lone surrogate raises with the file left empty.
\<close>

definition write_text :: "lib \<Rightarrow> path \<Rightarrow> ustring \<Rightarrow> filesystem \<Rightarrow> exn option \<times> filesystem" where
  "write_text lb p content f =
     (case write_file_node p [] f of
        Inl k \<Rightarrow> (Some (OSErr k p None), f)
      | Inr f0 \<Rightarrow>
          if encodable content
          then (None, AList.update p (File (newline_out lb content)) f)
          else (Some (UnicodeEncodeError (codec_error_str lb content)), f0))"

definition read_text :: "path \<Rightarrow> filesystem \<Rightarrow> exn + ustring" where
  "read_text p f =
     (case read_file_node p f of
        Inl k \<Rightarrow> Inl (OSErr k p None)
      | Inr c \<Rightarrow> Inr (universal_newlines c))"

text \<open>
  \<open>stat().st_size\<close>: the bytes of a regular file.  (The size of a directory is the
  host's; the tools ask for the size of what \<open>write_text\<close> has just written.)
\<close>

definition st_size :: "filesystem \<Rightarrow> path \<Rightarrow> nat" where
  "st_size f p = (case lookup f p of Some (File c) \<Rightarrow> utf8_len c | _ \<Rightarrow> 4096)"

definition os_unlink :: "path \<Rightarrow> filesystem \<Rightarrow> oskind + filesystem" where
  "os_unlink p f =
     (case parent_error f p of
        Some k \<Rightarrow> Inl k
      | None \<Rightarrow> (case lookup f p of
                   None \<Rightarrow> Inl ENOENT
                 | Some Dir \<Rightarrow> Inl EISDIR
                 | Some (File c) \<Rightarrow> Inr (AList.delete p f)))"

definition has_children :: "filesystem \<Rightarrow> path \<Rightarrow> bool" where
  "has_children f d = (\<exists>q \<in> set (map fst f). q \<noteq> [] \<and> butlast q = d)"

definition move_tree :: "path \<Rightarrow> path \<Rightarrow> filesystem \<Rightarrow> filesystem" where
  "move_tree src dst f =
     map (\<lambda>(p, n). if prefix src p then (dst @ drop (length src) p, n) else (p, n)) f"

text \<open>\<open>os.rename\<close> on a POSIX host: a regular file replaces a regular file silently.\<close>

definition os_rename :: "path \<Rightarrow> path \<Rightarrow> filesystem \<Rightarrow> oskind + filesystem" where
  "os_rename src dst f =
     (case parent_error f src of
        Some k \<Rightarrow> Inl k
      | None \<Rightarrow>
         (case lookup f src of
            None \<Rightarrow> Inl ENOENT
          | Some (File c) \<Rightarrow>
              (case parent_error f dst of
                 Some k \<Rightarrow> Inl k
               | None \<Rightarrow>
                   if is_dir f dst then Inl EISDIR
                   else if src = dst then Inr f
                   else Inr (AList.update dst (File c) (AList.delete src f)))
          | Some Dir \<Rightarrow>
              (case parent_error f dst of
                 Some k \<Rightarrow> Inl k
               | None \<Rightarrow>
                   if src = [] \<or> dst = [] then Inl EBUSY
                   else if src = dst then Inr f
                   else if prefix src dst then Inl EINVAL
                   else (case lookup f dst of
                           Some (File c) \<Rightarrow> Inl ENOTDIR
                         | Some Dir \<Rightarrow>
                             if has_children f dst then Inl ENOTEMPTY
                             else Inr (move_tree src dst (AList.delete dst f))
                         | None \<Rightarrow> Inr (move_tree src dst f)))))"

text \<open>
  The world: the file system, the lines the operator will type, the conversation memory,
  and what the inference endpoint answers to its n-th request, with a trace of the
  requests made, the back-off sleeps of \<open>call_ollama\<close> and the tools called.  Console
  output, the status display and the delays of the progress bars are left out: they
  change nothing that the functions below return.
\<close>

datatype http_outcome = NetError ustring | Response nat ustring

datatype event = EvPost ustring | EvSleep | EvTool ustring

record world =
  fs :: filesystem
  stdin :: "ustring list"
  memory :: "ustring list"
  endpoint :: "nat \<Rightarrow> http_outcome"
  posts :: nat
  events :: "event list"

section \<open>ApprovalGate\<close>

text \<open>\<open>input()\<close> takes the next line; at the end of the input it raises EOFError.\<close>

definition input_line :: "world \<Rightarrow> (exn + ustring) \<times> world" where
  "input_line w =
     (case stdin w of
        [] \<Rightarrow> (Inl EOFError, w)
      | a # rest \<Rightarrow> (Inr a, w\<lparr>stdin := rest\<rparr>))"

definition require_approval :: "config \<Rightarrow> lib \<Rightarrow> ustring \<Rightarrow> ustring \<Rightarrow> world \<Rightarrow> (exn + bool) \<times> world" where
  "require_approval cfg lb action details w =
     (if \<not> APPROVAL_REQUIRED cfg then (Inr True, w)
      else (case input_line w of
              (Inl e, w1) \<Rightarrow> (Inl e, w1)
            | (Inr a, w1) \<Rightarrow> (Inr (str_lower lb (strip a) = (U ''s'')), w1)))"

definition double_confirm_delete :: "config \<Rightarrow> lib \<Rightarrow> path \<Rightarrow> world \<Rightarrow> (exn + bool) \<times> world" where
  "double_confirm_delete cfg lb file_path w =
     (case require_approval cfg lb (U ''DELETE_FILE (1/2)'') (str_path file_path) w of
        (Inl e, w1) \<Rightarrow> (Inl e, w1)
      | (Inr ok, w1) \<Rightarrow>
          if \<not> ok then (Inr False, w1)
          else (case input_line w1 of
                  (Inl e, w2) \<Rightarrow> (Inl e, w2)
                | (Inr typed, w2) \<Rightarrow> (Inr (strip typed = path_name file_path), w2)))"

section \<open>Tools\<close>

definition o_acute :: ustring where
  "o_acute = [0xF3]"

definition msg_cancelled :: ustring where
  "msg_cancelled = (U ''Acci'') @ o_acute @ (U ''n cancelada por el usuario.'')"

definition msg_target_exists :: ustring where
  "msg_target_exists = (U ''El archivo ya existe. Usa overwrite=true si quieres sobrescribir.'')"

definition str_bool :: "bool \<Rightarrow> ustring" where
  "str_bool b = (if b then (U ''True'') else (U ''False''))"

definition failure :: "ustring \<Rightarrow> tool_result" where
  "failure msg = [((U ''ok''), VBool False), ((U ''error''), VStr msg)]"

text \<open>\<open>str(e)\<close>.\<close>

definition quoted :: "ustring \<Rightarrow> ustring" where
  "quoted s = [39] @ s @ [39]"

fun exn_str :: "lib \<Rightarrow> exn \<Rightarrow> ustring" where
  "exn_str lb (ValueError m) = m"
| "exn_str lb (TypeError m) = m"
| "exn_str lb (RuntimeError m) = m"
| "exn_str lb (RequestException m) = m"
| "exn_str lb (AttributeError m) = m"
| "exn_str lb (UnicodeEncodeError m) = m"
| "exn_str lb EOFError = U ''EOF when reading a line''"
| "exn_str lb (OSErr k p q) = os_error_str lb k p q"
| "exn_str lb (ShutilError m) = m"
| "exn_str lb (SameFileError a b) =
     py_repr lb (VStr (str_path a)) @ U '' and '' @ py_repr lb (VStr (str_path b))
       @ U '' are the same file''"

definition tool_write_file ::
  "config \<Rightarrow> lib \<Rightarrow> ustring \<Rightarrow> ustring \<Rightarrow> bool \<Rightarrow> world \<Rightarrow> (exn + tool_result) \<times> world" where
  "tool_write_file cfg lb path content overwrite w =
     (case safe_path cfg path of
        Inl e \<Rightarrow> (Inl e, w)
      | Inr file_path \<Rightarrow>
          if path_exists (fs w) file_path \<and> \<not> overwrite then (Inr (failure msg_target_exists), w)
          else
            (case require_approval cfg lb (U ''WRITE_FILE'')
                    (str_path file_path @ (U '' (overwrite='') @ str_bool overwrite @ (U '')'')) w of
               (Inl e, w1) \<Rightarrow> (Inl e, w1)
             | (Inr ok, w1) \<Rightarrow>
                 if \<not> ok then (Inr (failure msg_cancelled), w1)
                 else
                   (case path_mkdir (path_parent file_path) (fs w1) of
                      (Some e, f1) \<Rightarrow> (Inl e, w1\<lparr>fs := f1\<rparr>)
                    | (None, f1) \<Rightarrow>
                        (case write_text lb file_path content f1 of
                           (Some e, f2) \<Rightarrow> (Inl e, w1\<lparr>fs := f2\<rparr>)
                         | (None, f2) \<Rightarrow>
                             (let ex = path_exists f2 file_path;
                                  size = (if ex then st_size f2 file_path else 0)
                              in (Inr [((U ''ok''), VBool True), ((U ''path''), VStr (str_path file_path)),
                                       ((U ''exists''), VBool ex), ((U ''size''), VInt (int size))],
                                  w1\<lparr>fs := f2\<rparr>))))))"

text \<open>The slice \<open>data[:m]\<close>: a negative bound counts from the end.\<close>

definition py_prefix :: "int \<Rightarrow> ustring \<Rightarrow> ustring" where
  "py_prefix m d = (if 0 \<le> m then take (nat m) d else take (length d - nat (- m)) d)"

definition cut_marker :: ustring where
  "cut_marker = (10::nat) # (U ''... (recortado)'')"

definition tool_read_file ::
  "config \<Rightarrow> ustring \<Rightarrow> int \<Rightarrow> world \<Rightarrow> (exn + tool_result) \<times> world" where
  "tool_read_file cfg path max_chars w =
     (case safe_path cfg path of
        Inl e \<Rightarrow> (Inl e, w)
      | Inr file_path \<Rightarrow>
          if \<not> path_exists (fs w) file_path then (Inr (failure (U ''Archivo no existe.'')), w)
          else
            (case read_text file_path (fs w) of
               Inl e \<Rightarrow> (Inl e, w)
             | Inr data \<Rightarrow>
                 (let data' = (if int (length data) > max_chars
                               then py_prefix max_chars data @ cut_marker else data)
                  in (Inr [((U ''ok''), VBool True), ((U ''path''), VStr (str_path file_path)),
                           ((U ''content''), VStr data')], w))))"

definition tool_delete_file ::
  "config \<Rightarrow> lib \<Rightarrow> ustring \<Rightarrow> world \<Rightarrow> (exn + tool_result) \<times> world" where
  "tool_delete_file cfg lb path w =
     (case safe_path cfg path of
        Inl e \<Rightarrow> (Inl e, w)
      | Inr file_path \<Rightarrow>
          if \<not> path_exists (fs w) file_path \<or> \<not> is_file (fs w) file_path
          then (Inr (failure (U ''Archivo no existe.'')), w)
          else
            (case double_confirm_delete cfg lb file_path w of
               (Inl e, w1) \<Rightarrow> (Inl e, w1)
             | (Inr ok, w1) \<Rightarrow>
                 if \<not> ok then (Inr (failure (U ''Borrado cancelado por el usuario.'')), w1)
                 else
                   (case os_unlink file_path (fs w1) of
                      Inl k \<Rightarrow> (Inr (failure (exn_str lb (OSErr k file_path None))), w1)
                    | Inr f' \<Rightarrow>
                        (Inr [((U ''ok''), VBool True), ((U ''deleted''), VStr (str_path file_path))],
                         w1\<lparr>fs := f'\<rparr>))))"

text \<open>
  The body of the \<open>try\<close> block of \<open>tool_rename_file\<close>: the table comes back with the
  error, since the destination may have been unlinked by then.
\<close>

definition rename_body :: "path \<Rightarrow> path \<Rightarrow> bool \<Rightarrow> filesystem \<Rightarrow> exn option \<times> filesystem" where
  "rename_body src_path dst_path overwrite f =
     (case path_mkdir (path_parent dst_path) f of
        (Some e, f1) \<Rightarrow> (Some e, f1)
      | (None, f1) \<Rightarrow>
          (case (if overwrite \<and> path_exists f1 dst_path then os_unlink dst_path f1 else Inr f1) of
             Inl k \<Rightarrow> (Some (OSErr k dst_path None), f1)
           | Inr f2 \<Rightarrow>
               (case os_rename src_path dst_path f2 of
                  Inl k \<Rightarrow> (Some (OSErr k src_path (Some dst_path)), f2)
                | Inr f3 \<Rightarrow> (None, f3))))"

definition tool_rename_file ::
  "config \<Rightarrow> lib \<Rightarrow> ustring \<Rightarrow> ustring \<Rightarrow> bool \<Rightarrow> world \<Rightarrow> (exn + tool_result) \<times> world" where
  "tool_rename_file cfg lb src dst overwrite w =
     (case safe_path cfg src of
        Inl e \<Rightarrow> (Inl e, w)
      | Inr src_path \<Rightarrow>
         (case safe_path cfg dst of
            Inl e \<Rightarrow> (Inl e, w)
          | Inr dst_path \<Rightarrow>
              if \<not> path_exists (fs w) src_path \<or> \<not> is_file (fs w) src_path
              then (Inr (failure (U ''Archivo origen no existe.'')), w)
              else if path_exists (fs w) dst_path \<and> \<not> overwrite
              then (Inr (failure (U ''Destino ya existe. Usa overwrite=true para reemplazar.'')), w)
              else
                (case require_approval cfg lb (U ''RENAME_FILE'')
                        (str_path src_path @ (U '' -> '') @ str_path dst_path
                           @ (U '' (overwrite='') @ str_bool overwrite @ (U '')'')) w of
                   (Inl e, w1) \<Rightarrow> (Inl e, w1)
                 | (Inr ok, w1) \<Rightarrow>
                     if \<not> ok then (Inr (failure msg_cancelled), w1)
                     else
                       (case rename_body src_path dst_path overwrite (fs w1) of
                          (Some e, f') \<Rightarrow> (Inr (failure (exn_str lb e)), w1\<lparr>fs := f'\<rparr>)
                        | (None, f') \<Rightarrow>
                            (Inr [((U ''ok''), VBool True), ((U ''from''), VStr (str_path src_path)),
                                  ((U ''to''), VStr (str_path dst_path))], w1\<lparr>fs := f'\<rparr>)))))"

subsection \<open>organize_folder\<close>

definition EXT_GROUPS :: "(ustring \<times> ustring list) list" where
  "EXT_GROUPS =
     [((U ''imagenes''), [(U ''.png''), (U ''.jpg''), (U ''.jpeg''), (U ''.webp''), (U ''.gif''), (U ''.bmp'')]),
      ((U ''audio''), [(U ''.mp3''), (U ''.wav''), (U ''.aac''), (U ''.m4a''), (U ''.ogg'')]),
      ((U ''video''), [(U ''.mp4''), (U ''.mov''), (U ''.mkv''), (U ''.avi''), (U ''.webm'')]),
      ((U ''docs''), [(U ''.txt''), (U ''.md''), (U ''.pdf''), (U ''.docx''), (U ''.xlsx''), (U ''.pptx'')]),
      ((U ''code''), [(U ''.py''), (U ''.js''), (U ''.ts''), (U ''.html''), (U ''.css''), (U ''.json'')])]"

text \<open>\<open>PurePath.suffix\<close>: from the last dot of the name, unless it is first or last.\<close>

definition rfind_dot :: "ustring \<Rightarrow> nat option" where
  "rfind_dot s =
     (let k = length (takeWhile (\<lambda>c. c \<noteq> (46::nat)) (rev s))
      in if k = length s then None else Some (length s - 1 - k))"

definition suffix_of :: "ustring \<Rightarrow> ustring" where
  "suffix_of name =
     (case rfind_dot name of
        None \<Rightarrow> []
      | Some i \<Rightarrow> if 0 < i \<and> i < length name - 1 then drop i name else [])"

definition dest_folder_of :: "ustring \<Rightarrow> ustring" where
  "dest_folder_of ext =
     (case find (\<lambda>(g, exts). ext \<in> set exts) EXT_GROUPS of
        Some (g, exts) \<Rightarrow> g
      | None \<Rightarrow> (U ''otros''))"

definition category_folders :: "ustring list" where
  "category_folders = map fst EXT_GROUPS @ [(U ''otros'')]"

text \<open>\<open>shutil.copy2\<close>: into a directory under the source's name; never onto itself.\<close>

definition copy2 :: "path \<Rightarrow> path \<Rightarrow> filesystem \<Rightarrow> exn + filesystem" where
  "copy2 src dst f =
     (let real_dst = (if is_dir f dst then dst @ [path_name src] else dst)
      in if path_exists f src \<and> src = real_dst then Inl (SameFileError src real_dst)
         else (case read_file_node src f of
                 Inl k \<Rightarrow> Inl (OSErr k src None)
               | Inr c \<Rightarrow>
                   (case write_file_node real_dst c f of
                      Inl k \<Rightarrow> Inl (OSErr k real_dst None)
                    | Inr f' \<Rightarrow> Inr f')))"

text \<open>
  \<open>shutil.move\<close> of a regular file: into a directory under the source's name, refusing
  a name taken there; by \<open>os.rename\<close>, and when that fails by copy and unlink.  (For a
  directory that \<open>os.rename\<close> refuses the library copies the tree; the tools only move
  what \<open>is_file\<close> has accepted, and the model raises the error of \<open>os.rename\<close> there.)
\<close>

definition move_to :: "path \<Rightarrow> path \<Rightarrow> filesystem \<Rightarrow> exn option \<times> filesystem" where
  "move_to src real_dst f =
     (case os_rename src real_dst f of
        Inr f' \<Rightarrow> (None, f')
      | Inl k \<Rightarrow>
          if is_dir f src then (Some (OSErr k src (Some real_dst)), f)
          else (case copy2 src real_dst f of
                  Inl e' \<Rightarrow> (Some e', f)
                | Inr f1 \<Rightarrow>
                    (case os_unlink src f1 of
                       Inl k' \<Rightarrow> (Some (OSErr k' src None), f1)
                     | Inr f2 \<Rightarrow> (None, f2))))"

definition shutil_move :: "path \<Rightarrow> path \<Rightarrow> filesystem \<Rightarrow> exn option \<times> filesystem" where
  "shutil_move src dst f =
     (if is_dir f dst then
        (if src = dst then
           (case os_rename src dst f of
              Inl k \<Rightarrow> (Some (OSErr k src (Some dst)), f)
            | Inr f' \<Rightarrow> (None, f'))
         else
           (let real_dst = dst @ [path_name src]
            in if path_exists f real_dst
               then (Some (ShutilError (U ''Destination path '' @ quoted (str_path real_dst)
                                         @ U '' already exists'')), f)
               else move_to src real_dst f))
      else move_to src dst f)"

fun mkdir_all :: "path list \<Rightarrow> filesystem \<Rightarrow> exn option \<times> filesystem" where
  "mkdir_all [] f = (None, f)"
| "mkdir_all (d # ds) f =
     (case path_mkdir d f of
        (Some e, f') \<Rightarrow> (Some e, f')
      | (None, f') \<Rightarrow> mkdir_all ds f')"

text \<open>\<open>Path.iterdir\<close>: the entries directly under a directory, listed once, at the start.\<close>

definition children :: "filesystem \<Rightarrow> path \<Rightarrow> path list" where
  "children f d = filter (\<lambda>p. p \<noteq> [] \<and> butlast p = d) (map fst f)"

definition iterdir :: "path \<Rightarrow> filesystem \<Rightarrow> exn + path list" where
  "iterdir d f =
     (case parent_error f d of
        Some k \<Rightarrow> Inl (OSErr k d None)
      | None \<Rightarrow> (case lookup f d of
                   None \<Rightarrow> Inl (OSErr ENOENT d None)
                 | Some (File c) \<Rightarrow> Inl (OSErr ENOTDIR d None)
                 | Some Dir \<Rightarrow> Inr (children f d)))"

type_synonym organize_state = "filesystem \<times> pyval list \<times> nat"

text \<open>One round of the loop over the entries; \<open>base / folder / name\<close> joins components.\<close>

definition organize_step :: "lib \<Rightarrow> ustring \<Rightarrow> path \<Rightarrow> path \<Rightarrow> organize_state \<Rightarrow> organize_state" where
  "organize_step lb mode base p st =
     (case st of (f, moved, skipped) \<Rightarrow>
        if is_file f p then
          (let ext = str_lower lb (suffix_of (path_name p));
               dest_folder = dest_folder_of ext;
               dest = base @ [dest_folder, path_name p]
           in if resolve dest = resolve p then (f, moved, skipped + 1)
              else
                (case (if mode = (U ''move'') then shutil_move p dest f
                       else (case copy2 p dest f of Inl e \<Rightarrow> (Some e, f) | Inr f' \<Rightarrow> (None, f'))) of
                   (None, f') \<Rightarrow>
                     (f', moved @ [VDict [((U ''from''), VStr (path_name p)),
                                          ((U ''to''), VStr (dest_folder @ (U ''/'') @ path_name p))]],
                      skipped)
                 | (Some e, f') \<Rightarrow> (f', moved, skipped + 1)))
        else (f, moved, skipped))"

fun organize_loop :: "lib \<Rightarrow> ustring \<Rightarrow> path \<Rightarrow> path list \<Rightarrow> organize_state \<Rightarrow> organize_state" where
  "organize_loop lb mode base [] st = st"
| "organize_loop lb mode base (p # ps) st =
     organize_loop lb mode base ps (organize_step lb mode base p st)"

definition tool_organize_folder ::
  "config \<Rightarrow> lib \<Rightarrow> ustring \<Rightarrow> ustring \<Rightarrow> world \<Rightarrow> (exn + tool_result) \<times> world" where
  "tool_organize_folder cfg lb subdir mode w =
     (if mode \<noteq> (U ''move'') \<and> mode \<noteq> (U ''copy'') then (Inr (failure (U ''mode debe ser 'move' o 'copy'.'')), w)
      else
        (case (if subdir \<noteq> [] then safe_path cfg subdir else Inr (WORKSPACE cfg)) of
           Inl e \<Rightarrow> (Inl e, w)
         | Inr base \<Rightarrow>
             if \<not> path_exists (fs w) base then (Inr (failure (U ''Directorio no existe.'')), w)
             else
               (case require_approval cfg lb (U ''ORGANIZE_FOLDER'')
                       (str_path base @ (U '' (mode='') @ mode @ (U '')'')) w of
                  (Inl e, w1) \<Rightarrow> (Inl e, w1)
                | (Inr ok, w1) \<Rightarrow>
                    if \<not> ok then (Inr (failure msg_cancelled), w1)
                    else
                      (case mkdir_all (map (\<lambda>d. base @ [d]) category_folders) (fs w1) of
                         (Some e, f1) \<Rightarrow> (Inl e, w1\<lparr>fs := f1\<rparr>)
                       | (None, f1) \<Rightarrow>
                           (case iterdir base f1 of
                              Inl e \<Rightarrow> (Inl e, w1\<lparr>fs := f1\<rparr>)
                            | Inr ps \<Rightarrow>
                                (case organize_loop lb mode base ps (f1, [], 0) of
                                   (f2, moved, skipped) \<Rightarrow>
                                     (Inr [((U ''ok''), VBool True),
                                           ((U ''moved_count''), VInt (int (length moved))),
                                           ((U ''skipped''), VInt (int skipped)),
                                           ((U ''moved''), VList (take 50 moved))],
                                      w1\<lparr>fs := f2\<rparr>)))))))"


subsection \<open>list_files\<close>

text \<open>
  \<open>p.relative_to(WORKSPACE)\<close> raises ValueError unless the root's components lead to
  \<open>p\<close> (the message is that of Python 3.12).
\<close>

definition relative_to :: "lib \<Rightarrow> path \<Rightarrow> path \<Rightarrow> exn + ustring" where
  "relative_to lb p root =
     (if prefix root p
      then Inr (case drop (length root) p of
                  [] \<Rightarrow> (U ''.'')
                | c # cs \<Rightarrow> c @ concat (map (\<lambda>x. (U ''/'') @ x) cs))
      else Inl (ValueError (py_repr lb (VStr (str_path p)) @ (U '' is not in the subpath of '')
                              @ py_repr lb (VStr (str_path root)))))"

fun collect_relative :: "lib \<Rightarrow> path \<Rightarrow> path list \<Rightarrow> exn + ustring list" where
  "collect_relative lb root [] = Inr []"
| "collect_relative lb root (p # ps) =
     (case relative_to lb p root of
        Inl e \<Rightarrow> Inl e
      | Inr s \<Rightarrow> (case collect_relative lb root ps of Inl e \<Rightarrow> Inl e | Inr ss \<Rightarrow> Inr (s # ss)))"

text \<open>\<open>base.rglob("*")\<close>: every entry below \<open>base\<close>.\<close>

definition rglob_all :: "filesystem \<Rightarrow> path \<Rightarrow> path list" where
  "rglob_all f base = filter (\<lambda>p. strict_prefix base p) (map fst f)"

definition tool_list_files ::
  "config \<Rightarrow> lib \<Rightarrow> ustring \<Rightarrow> world \<Rightarrow> (exn + tool_result) \<times> world" where
  "tool_list_files cfg lb subdir w =
     (case (if subdir \<noteq> [] then safe_path cfg subdir else Inr (WORKSPACE cfg)) of
        Inl e \<Rightarrow> (Inl e, w)
      | Inr base \<Rightarrow>
          if \<not> path_exists (fs w) base then (Inr (failure (U ''Directorio no existe.'')), w)
          else
            (case collect_relative lb (WORKSPACE cfg)
                    (filter (is_file (fs w)) (rglob_all (fs w) base)) of
               Inl e \<Rightarrow> (Inl e, w)
             | Inr files \<Rightarrow>
                 (Inr [((U ''ok''), VBool True), ((U ''files''), VList (map VStr (take 500 (sort files)))),
                       ((U ''count''), VInt (int (length files)))], w)))"

section \<open>DirectCommandRouter\<close>

function show_nat :: "nat \<Rightarrow> ustring" where
  "show_nat n =
     (if n < 10 then [48 + n] else show_nat (n div 10) @ [48 + n mod 10])"
  by pat_completeness auto
termination
  by (relation "measure id") auto

declare show_nat.simps [simp del]

definition show_int :: "int \<Rightarrow> ustring" where
  "show_int i = (if i < 0 then (U ''-'') @ show_nat (nat (- i)) else show_nat (nat i))"

text \<open>\<open>str(v)\<close>; a list or a dictionary prints as its \<open>repr\<close>.\<close>

definition py_str :: "lib \<Rightarrow> pyval \<Rightarrow> ustring" where
  "py_str lb v =
     (case v of
        VNone \<Rightarrow> (U ''None'')
      | VBool b \<Rightarrow> str_bool b
      | VInt i \<Rightarrow> show_int i
      | VStr s \<Rightarrow> s
      | _ \<Rightarrow> py_repr lb v)"

text \<open>The truth value of an object, as \<open>if x\<close> and \<open>x or y\<close> take it.\<close>

definition truthy :: "pyval \<Rightarrow> bool" where
  "truthy v =
     (case v of
        VNone \<Rightarrow> False
      | VBool b \<Rightarrow> b
      | VInt i \<Rightarrow> i \<noteq> 0
      | VStr s \<Rightarrow> s \<noteq> []
      | VList xs \<Rightarrow> xs \<noteq> []
      | VDict d \<Rightarrow> d \<noteq> [])"

definition dict_get :: "(ustring \<times> pyval) list \<Rightarrow> ustring \<Rightarrow> pyval \<Rightarrow> pyval" where
  "dict_get d k dflt = (case map_of d k of None \<Rightarrow> dflt | Some v \<Rightarrow> v)"

definition check_mark :: ustring where
  "check_mark = [0x2705]"

definition cross_mark :: ustring where
  "cross_mark = [0x274C]"

definition unquote :: "ustring \<Rightarrow> ustring" where
  "unquote s = strip_chars [(39::nat)] (strip_chars [(34::nat)] (strip s))"

definition try_direct_command ::
  "config \<Rightarrow> lib \<Rightarrow> ustring \<Rightarrow> world \<Rightarrow> (exn + ustring option) \<times> world" where
  "try_direct_command cfg lb user_input w =
     (let s = strip user_input in
      case re_crea lb s of
        Some (g1, g2) \<Rightarrow>
          (case tool_write_file cfg lb (unquote g1) g2 True w of
             (Inl e, w1) \<Rightarrow> (Inl e, w1)
           | (Inr res, w1) \<Rightarrow>
               if truthy (dict_get res (U ''ok'') VNone)
               then (Inr (Some (check_mark @ (U '' Archivo creado en: '') @ py_str lb (dict_get res (U ''path'') VNone)
                          @ (U '' | existe='') @ py_str lb (dict_get res (U ''exists'') VNone)
                          @ (U '' | size='') @ py_str lb (dict_get res (U ''size'') VNone) @ (U '' bytes''))), w1)
               else (Inr (Some (cross_mark @ (U '' No se pudo crear: '')
                          @ py_str lb (dict_get res (U ''error'') VNone))), w1))
      | None \<Rightarrow>
          if re_lista lb s then
            (case tool_list_files cfg lb [] w of
               (Inl e, w1) \<Rightarrow> (Inl e, w1)
             | (Inr res, w1) \<Rightarrow>
                 if truthy (dict_get res (U ''ok'') VNone)
                 then (if dict_get res (U ''count'') VNone = VInt 0
                       then (Inr (Some (U ''No hay archivos en el workspace.'')), w1)
                       else (Inr (Some ((U ''Archivos:'') @ [(10::nat)] @
                               (case dict_get res (U ''files'') VNone of
                                  VList (x # xs) \<Rightarrow>
                                    py_str lb x @ concat (map (\<lambda>y. (10::nat) # py_str lb y) xs)
                                | _ \<Rightarrow> []))), w1))
                 else (Inr (Some ((U ''Error: '') @ py_str lb (dict_get res (U ''error'') VNone))), w1))
          else
            (case re_lee lb s of
               Some g2 \<Rightarrow>
                 (let path = unquote g2 in
                  case tool_read_file cfg path 6000 w of
                    (Inl e, w1) \<Rightarrow> (Inl e, w1)
                  | (Inr res, w1) \<Rightarrow>
                      if truthy (dict_get res (U ''ok'') VNone)
                      then (Inr (Some ((U ''Contenido de '') @ path @ (U '':'') @ [(10::nat)]
                                 @ py_str lb (dict_get res (U ''content'') VNone))), w1)
                      else (Inr (Some (cross_mark @ (U '' No se pudo leer: '')
                                 @ py_str lb (dict_get res (U ''error'') VNone))), w1))
             | None \<Rightarrow> (Inr None, w)))"

section \<open>InferenceClient\<close>

text \<open>The messages of two errors of the interpreter.\<close>

definition type_name :: "pyval \<Rightarrow> ustring" where
  "type_name v =
     (case v of
        VNone \<Rightarrow> U ''NoneType''
      | VBool b \<Rightarrow> U ''bool''
      | VInt i \<Rightarrow> U ''int''
      | VStr s \<Rightarrow> U ''str''
      | VList xs \<Rightarrow> U ''list''
      | VDict d \<Rightarrow> U ''dict'')"

definition no_attribute :: "pyval \<Rightarrow> ustring \<Rightarrow> ustring" where
  "no_attribute v a = quoted (type_name v) @ U '' object has no attribute '' @ quoted a"

definition unhashable :: "pyval \<Rightarrow> ustring" where
  "unhashable v = U ''unhashable type: '' @ quoted (type_name v)"

text \<open>
  One attempt: the request, the status check and the decoding of the body.  Whatever
  goes wrong is an exception that the loop catches.
\<close>

definition attempt :: "lib \<Rightarrow> http_outcome \<Rightarrow> exn + pyval" where
  "attempt lb r =
     (case r of
        NetError m \<Rightarrow> Inl (RequestException m)
      | Response status body \<Rightarrow>
          if status \<noteq> 200
          then Inl (RuntimeError (U ''HTTP '' @ show_nat status @ U '': '' @ take 200 body))
          else (case json_loads lb body of
                  None \<Rightarrow> Inl (ValueError (json_error lb body))
                | Some (VDict d) \<Rightarrow> Inr (dict_get d (U ''response'') (VStr []))
                | Some v \<Rightarrow> Inl (AttributeError (no_attribute v (U ''get'')))))"

text \<open>
  The \<open>for\<close> loop of \<open>call_ollama\<close> with \<open>n\<close> attempts left: each attempt is logged as
  \<open>EvPost\<close>, each \<open>time.sleep(1.0)\<close> as \<open>EvSleep\<close>.  \<open>Inl last\<close> is the loop running out.
\<close>

fun call_loop :: "lib \<Rightarrow> ustring \<Rightarrow> nat \<Rightarrow> exn option \<Rightarrow> world \<Rightarrow> (exn option + pyval) \<times> world" where
  "call_loop lb prompt 0 last_err w = (Inl last_err, w)"
| "call_loop lb prompt (Suc n) last_err w =
     (let w1 = w\<lparr>posts := posts w + 1, events := events w @ [EvPost prompt]\<rparr> in
      case attempt lb (endpoint w (posts w)) of
        Inr out \<Rightarrow> (Inr out, w1)
      | Inl e \<Rightarrow> call_loop lb prompt n (Some e) (w1\<lparr>events := events w1 @ [EvSleep]\<rparr>))"

definition call_ollama :: "config \<Rightarrow> lib \<Rightarrow> ustring \<Rightarrow> world \<Rightarrow> (exn + pyval) \<times> world" where
  "call_ollama cfg lb prompt w =
     (case call_loop lb prompt (RETRIES cfg + 1) None w of
        (Inr out, w') \<Rightarrow> (Inr out, w')
      | (Inl last_err, w') \<Rightarrow>
          (Inl (RuntimeError ((U ''No se pudo contactar con Ollama: '') @
                  (case last_err of None \<Rightarrow> (U ''None'') | Some e \<Rightarrow> exn_str lb e))), w'))"

section \<open>ActionProtocol\<close>

definition parse_action :: "lib \<Rightarrow> ustring \<Rightarrow> pyval option" where
  "parse_action lb text0 =
     (let t = strip text0 in if \<not> startswith t (U ''{'') then None else json_loads lb t)"

definition MAX_MEMORY_TURNS :: nat where
  "MAX_MEMORY_TURNS = 6"

definition join_lines :: "ustring list \<Rightarrow> ustring" where
  "join_lines xs = (case xs of [] \<Rightarrow> [] | y # ys \<Rightarrow> y @ concat (map (\<lambda>z. (10::nat) # z) ys))"

definition build_prompt :: "config \<Rightarrow> ustring list \<Rightarrow> ustring \<Rightarrow> ustring" where
  "build_prompt cfg mem user_input =
     SYSTEM_INSTRUCTIONS cfg @ [(10::nat), (10::nat)] @ (U ''HISTORIAL:'') @ [(10::nat)]
       @ join_lines (drop (length mem - MAX_MEMORY_TURNS) mem) @ [(10::nat), (10::nat)]
       @ (U ''USUARIO: '') @ user_input @ [(10::nat)] @ (U ''RESPUESTA:'')"

definition dq :: "ustring \<Rightarrow> ustring" where
  "dq s = [(34::nat)] @ s @ [(34::nat)]"

definition followup_prompt :: "config \<Rightarrow> lib \<Rightarrow> ustring \<Rightarrow> ustring \<Rightarrow> tool_result \<Rightarrow> ustring" where
  "followup_prompt cfg lb user_input tool_name res =
     SYSTEM_INSTRUCTIONS cfg @ [(10::nat), (10::nat)] @ (U ''El usuario pidi'') @ o_acute @ (U '': '') @ user_input
       @ [(10::nat), (10::nat)] @ (U ''Resultado de la herramienta ('') @ tool_name @ (U ''):'') @ [(10::nat)]
       @ json_dumps lb (VDict res) @ [(10::nat), (10::nat)] @ (U ''Ahora responde con:'') @ [(10::nat)]
       @ (U ''{ '') @ dq (U ''action'') @ (U '': '') @ dq (U ''reply'') @ (U '', '') @ dq (U ''text'') @ (U '': '') @ dq (U ''...'') @ (U '' }'')
       @ [(10::nat)]"

text \<open>
  The registry maps a tool name to the call \<open>TOOLS[name](**args)\<close> on the decoded
  arguments.  \<open>run_agent_turn\<close> takes it as an argument, as the program reads the global.
\<close>

type_synonym registry = "ustring \<Rightarrow> (pyval \<Rightarrow> world \<Rightarrow> (exn + tool_result) \<times> world) option"

definition reply_text :: "lib \<Rightarrow> (ustring \<times> pyval) list \<Rightarrow> ustring" where
  "reply_text lb d = strip (py_str lb (dict_get d (U ''text'') (VStr [])))"

definition after_tool ::
  "config \<Rightarrow> lib \<Rightarrow> ustring \<Rightarrow> ustring \<Rightarrow> tool_result \<Rightarrow> world \<Rightarrow> (exn + ustring) \<times> world" where
  "after_tool cfg lb user_input tool_name res w =
     (case call_ollama cfg lb (followup_prompt cfg lb user_input tool_name res) w of
        (Inl e, w1) \<Rightarrow> (Inl e, w1)
      | (Inr raw2, w1) \<Rightarrow>
          (case raw2 of
             VStr text2 \<Rightarrow>
               (case parse_action lb text2 of
                  Some (VDict d2) \<Rightarrow>
                    if d2 \<noteq> [] \<and> dict_get d2 (U ''action'') VNone = VStr (U ''reply'')
                    then (Inr (reply_text lb d2), w1)
                    else (Inr ((U ''Resultado: '') @ py_repr lb (VDict res)), w1)
                | Some v \<Rightarrow>
                    if truthy v then (Inl (AttributeError (no_attribute v (U ''get''))), w1)
                    else (Inr ((U ''Resultado: '') @ py_repr lb (VDict res)), w1)
                | None \<Rightarrow> (Inr ((U ''Resultado: '') @ py_repr lb (VDict res)), w1))
           | v \<Rightarrow> (Inl (AttributeError (no_attribute v (U ''strip''))), w1)))"

definition dispatch_tool ::
  "config \<Rightarrow> lib \<Rightarrow> registry \<Rightarrow> ustring \<Rightarrow> (ustring \<times> pyval) list \<Rightarrow> world \<Rightarrow> (exn + ustring) \<times> world" where
  "dispatch_tool cfg lb tools user_input d w =
     (case dict_get d (U ''tool_name'') VNone of
        VList xs \<Rightarrow> (Inl (TypeError (unhashable (VList xs))), w)
      | VDict xs \<Rightarrow> (Inl (TypeError (unhashable (VDict xs))), w)
      | VStr tool_name \<Rightarrow>
          (case tools tool_name of
             None \<Rightarrow> (Inr ((U ''No puedo: herramienta desconocida '') @ [(39::nat)] @ tool_name @ [(39::nat)] @ (U ''.'')), w)
           | Some tool \<Rightarrow>
               (let args = (let a = dict_get d (U ''args'') (VDict []) in if truthy a then a else VDict []);
                    w0 = w\<lparr>events := events w @ [EvTool tool_name]\<rparr>
                in case tool args w0 of
                     (Inl (TypeError m), w1) \<Rightarrow>
                       (Inr ((U ''Error de argumentos para '') @ tool_name @ (U '': '') @ m), w1)
                   | (Inl e, w1) \<Rightarrow>
                       (Inr ((U ''Error ejecutando '') @ tool_name @ (U '': '') @ exn_str lb e), w1)
                   | (Inr res, w1) \<Rightarrow> after_tool cfg lb user_input tool_name res w1))
      | v \<Rightarrow> (Inr ((U ''No puedo: herramienta desconocida '') @ [(39::nat)] @ py_str lb v @ [(39::nat)] @ (U ''.'')), w))"

definition i_acute :: ustring where
  "i_acute = [0xED]"

definition run_agent_turn ::
  "config \<Rightarrow> lib \<Rightarrow> registry \<Rightarrow> ustring \<Rightarrow> world \<Rightarrow> (exn + ustring) \<times> world" where
  "run_agent_turn cfg lb tools user_input w =
     (case try_direct_command cfg lb user_input w of
        (Inl e, w1) \<Rightarrow> (Inl e, w1)
      | (Inr (Some direct), w1) \<Rightarrow> (Inr direct, w1)
      | (Inr None, w1) \<Rightarrow>
          (case call_ollama cfg lb (build_prompt cfg (memory w1) user_input) w1 of
             (Inl e, w2) \<Rightarrow> (Inl e, w2)
           | (Inr raw, w2) \<Rightarrow>
               (case raw of
                  VStr text0 \<Rightarrow>
                    (case parse_action lb text0 of
                       None \<Rightarrow> (Inr (strip text0), w2)
                     | Some (VDict d) \<Rightarrow>
                         if d = [] then (Inr (strip text0), w2)
                         else if dict_get d (U ''action'') VNone = VStr (U ''reply'')
                         then (Inr (reply_text lb d), w2)
                         else if dict_get d (U ''action'') VNone = VStr (U ''tool'')
                         then dispatch_tool cfg lb tools user_input d w2
                         else (Inr ((U ''No entend'') @ i_acute @ (U '' la acci'') @ o_acute @ (U ''n solicitada.'')), w2)
                     | Some v \<Rightarrow>
                         if truthy v then (Inl (AttributeError (no_attribute v (U ''get''))), w2)
                         else (Inr (strip text0), w2))
                | v \<Rightarrow> (Inl (AttributeError (no_attribute v (U ''strip''))), w2))))"


section \<open>A sample workspace\<close>

definition ws0 :: path where
  "ws0 = [(U ''home''), (U ''u''), (U ''AGENT_WORKSPACE'')]"

definition fs0 :: filesystem where
  "fs0 = [([(U ''home'')], Dir), ([(U ''home''), (U ''u'')], Dir), (ws0, Dir),
          (ws0 @ [(U ''a.txt'')], File (U ''hola'')),
          (ws0 @ [(U ''b.txt'')], File (U ''adios'')),
          (ws0 @ [(U ''sub'')], Dir)]"

definition w0 :: world where
  "w0 = \<lparr>fs = fs0, stdin = [], memory = [], endpoint = (\<lambda>n. Response 500 (U ''boom'')),
         posts = 0, events = []\<rparr>"

text \<open>
  A sample library for a POSIX host: the messages of Linux, lower-casing of ASCII, a
  decoder that refuses everything and one sentence that the file-creation pattern
  matches.  \<open>lib_win\<close> is the same with the line separator of Windows.
\<close>

definition posix_error_str :: "oskind \<Rightarrow> path \<Rightarrow> path option \<Rightarrow> ustring" where
  "posix_error_str k p q =
     (case k of
        ENOENT \<Rightarrow> U ''[Errno 2] No such file or directory''
      | EEXIST \<Rightarrow> U ''[Errno 17] File exists''
      | EISDIR \<Rightarrow> U ''[Errno 21] Is a directory''
      | ENOTDIR \<Rightarrow> U ''[Errno 20] Not a directory''
      | EBUSY \<Rightarrow> U ''[Errno 16] Device or resource busy''
      | EINVAL \<Rightarrow> U ''[Errno 22] Invalid argument''
      | ENOTEMPTY \<Rightarrow> U ''[Errno 39] Directory not empty'')
     @ U '': '' @ quoted (str_path p)
     @ (case q of None \<Rightarrow> [] | Some d \<Rightarrow> U '' -> '' @ quoted (str_path d))"

definition lib0 :: lib where
  "lib0 = \<lparr>json_loads = (\<lambda>s. None), json_error = (\<lambda>s. U ''Expecting value''),
           json_dumps = (\<lambda>v. U ''{}''), py_repr = (\<lambda>v. U ''{}''),
           re_crea = (\<lambda>s. if s = U ''crea el archivo a.txt con el contenido: nuevo''
                            then Some (U ''a.txt'', U ''nuevo'') else None),
           re_lista = (\<lambda>s. False), re_lee = (\<lambda>s. None),
           str_lower = ascii_lower, os_linesep = [10],
           os_error_str = posix_error_str,
           codec_error_str = (\<lambda>s. U ''surrogates not allowed'')\<rparr>"

definition lib_win :: lib where
  "lib_win = lib0\<lparr>os_linesep := [13, 10]\<rparr>"


definition cfg1 :: config where
  "cfg1 = cfg0\<lparr>APPROVAL_REQUIRED := False\<rparr>"

definition w_after_write :: world where
  "w_after_write = snd (tool_write_file cfg0 lib0 (U ''n.txt'') (U ''hola mundo'') False (w0\<lparr>stdin := [(U ''s'')]\<rparr>))"

text \<open>On Windows: a text with an accented letter and a line feed.\<close>

definition w_after_accent :: world where
  "w_after_accent = snd (tool_write_file cfg0 lib_win (U ''n.txt'') [97, 0xF1, 10, 98] False (w0\<lparr>stdin := [(U ''s'')]\<rparr>))"

definition backoff_trace :: "ustring \<Rightarrow> nat \<Rightarrow> event list" where
  "backoff_trace prompt n = concat (replicate n [EvPost prompt, EvSleep])"

definition tool_calls :: "event list \<Rightarrow> ustring list" where
  "tool_calls es = concat (map (\<lambda>e. case e of EvTool n \<Rightarrow> [n] | _ \<Rightarrow> []) es)"

definition body_plain :: ustring where
  "body_plain = (U ''{'') @ dq (U ''response'') @ (U '': '') @ dq (U '' no es json '') @ (U ''}'')"

definition braced_text :: ustring where
  "braced_text = [0xA0] @ (U ''{'') @ dq (U ''action'') @ (U '': '') @ dq (U ''reply'') @ (U '', '') @ dq (U ''text'') @ (U '': '') @ dq (U ''hi'') @ (U ''}'')"

text \<open>The JSON form of a string that has double quotes but nothing else to escape.\<close>

definition json_quote :: "ustring \<Rightarrow> ustring" where
  "json_quote s = dq (concat (map (\<lambda>c. if c = (34::nat) then [(92::nat), (34::nat)] else [c]) s))"

definition body_braced :: ustring where
  "body_braced = (U ''{'') @ dq (U ''response'') @ (U '': '') @ json_quote braced_text @ (U ''}'')"

text \<open>A decoder for the sample texts: the two response bodies and the action object.\<close>

definition lib1 :: lib where
  "lib1 = lib0\<lparr>json_loads :=
            (\<lambda>s. if s = body_plain then Some (VDict [((U ''response''), VStr (U '' no es json ''))])
                 else if s = body_braced then Some (VDict [((U ''response''), VStr braced_text)])
                 else if s = strip braced_text
                 then Some (VDict [((U ''action''), VStr (U ''reply'')), ((U ''text''), VStr (U ''hi''))])
                 else None)\<rparr>"

definition w_plain :: world where
  "w_plain = w0\<lparr>endpoint := (\<lambda>n. Response 200 body_plain)\<rparr>"

definition w_braced :: world where
  "w_braced = w0\<lparr>endpoint := (\<lambda>n. Response 200 body_braced)\<rparr>"

definition no_tools :: registry where
  "no_tools = (\<lambda>n. None)"

text \<open>A registry with one entry, for well-typed arguments of \<open>read_file\<close>.\<close>

definition read_only_tools :: registry where
  "read_only_tools =
     (\<lambda>n. if n = (U ''read_file'')
          then Some (\<lambda>args w. case args of
                        VDict a \<Rightarrow> (case map_of a (U ''path'') of
                                      Some (VStr p) \<Rightarrow> tool_read_file cfg0 p 6000 w
                                    | _ \<Rightarrow> (Inl (TypeError (U ''missing path'')), w))
                      | _ \<Rightarrow> (Inl (TypeError (U ''argument after ** must be a mapping'')), w))
          else None)"

definition escape_action :: "(ustring \<times> pyval) list" where
  "escape_action = [((U ''action''), VStr (U ''tool'')), ((U ''tool_name''), VStr (U ''read_file'')),
                    ((U ''args''), VDict [((U ''path''), VStr (U ''../../etc/passwd''))])]"

text \<open>
  Where the loop sends an entry, and when it can do nothing with it: the entry is not a
  regular file, or it is its own destination, or the destination is a directory that
  already holds the name.
\<close>

definition dest_of :: "lib \<Rightarrow> path \<Rightarrow> path \<Rightarrow> path" where
  "dest_of lb base q =
     base @ [dest_folder_of (str_lower lb (suffix_of (path_name q))), path_name q]"

definition stuck :: "lib \<Rightarrow> filesystem \<Rightarrow> path \<Rightarrow> path \<Rightarrow> bool" where
  "stuck lb f base q =
     (\<not> is_file f q \<or> resolve (dest_of lb base q) = resolve q
      \<or> (is_dir f (dest_of lb base q) \<and> path_exists f (dest_of lb base q @ [path_name q])))"

definition folders_ready :: "filesystem \<Rightarrow> path \<Rightarrow> bool" where
  "folders_ready f base =
     (\<forall>d \<in> set category_folders. is_dir f (base @ [d]) \<and> parent_error f (base @ [d]) = None)"

definition w_organized :: world where
  "w_organized = snd (tool_organize_folder cfg0 lib0 [] (U ''move'') (w0\<lparr>stdin := [(U ''s''), (U ''s'')]\<rparr>))"


section \<open>Properties\<close>

subsection \<open>Strings\<close>

lemma U_eq_iff [simp]: "U a = U b \<longleftrightarrow> a = b"
proof -
  have "inj (of_char :: char \<Rightarrow> nat)" by (rule inj_of_char)
  then show ?thesis unfolding U_def by (rule inj_map_eq_map)
qed

lemma U_Nil_iff [simp]: "U a = [] \<longleftrightarrow> a = []" "[] = U a \<longleftrightarrow> a = []"
  by (auto simp: U_def)

lemma length_U [simp]: "length (U s) = length s"
  by (simp add: U_def)

lemma U_append: "U a @ U b = U (a @ b)" "U a @ U b @ r = U (a @ b) @ r"
  by (simp_all add: U_def)

subsection \<open>PathGuard\<close>

text \<open>
  C1.  The claim: \<open>safe_path\<close> returns a path equal to or nested under the workspace root,
  or fails.  The guard compares the rendered strings, so a sibling directory whose name
  extends the root's name passes it: with the root \<open>/home/u/AGENT_WORKSPACE\<close> the
  argument \<open>../AGENT_WORKSPACE_old/x\<close> is returned as \<open>/home/u/AGENT_WORKSPACE_old/x\<close>,
  which is outside the root.
\<close>

theorem safe_path_sibling_escape:
  "safe_path cfg0 (U ''../AGENT_WORKSPACE_old/x'') = Inr [(U ''home''), (U ''u''), (U ''AGENT_WORKSPACE_old''), (U ''x'')]
   \<and> \<not> inside cfg0 [(U ''home''), (U ''u''), (U ''AGENT_WORKSPACE_old''), (U ''x'')]"
  by code_simp

subsection \<open>The file system\<close>

lemma is_dir_root [simp]: "is_dir f []"
  by (simp add: is_dir_def lookup_def)

lemma walk_None_iff:
  "walk f pre cs = None \<longleftrightarrow> (\<forall>k < length cs. is_dir f (pre @ take (Suc k) cs))"
proof (induction cs arbitrary: pre)
  case Nil
  then show ?case by simp
next
  case (Cons c cs)
  show ?case
  proof (cases "lookup f (pre @ [c])")
    case None
    then have "\<not> is_dir f (pre @ take (Suc 0) (c # cs))" by (simp add: is_dir_def)
    with None show ?thesis by auto
  next
    case (Some n)
    show ?thesis
    proof (cases n)
      case (File x)
      with Some have "\<not> is_dir f (pre @ take (Suc 0) (c # cs))" by (simp add: is_dir_def)
      with Some File show ?thesis by auto
    next
      case Dir
      with Some have d: "is_dir f (pre @ [c])" by (simp add: is_dir_def)
      have "(\<forall>k < length (c # cs). is_dir f (pre @ take (Suc k) (c # cs)))
            \<longleftrightarrow> (\<forall>k < length cs. is_dir f ((pre @ [c]) @ take (Suc k) cs))"
      proof
        assume a: "\<forall>k < length (c # cs). is_dir f (pre @ take (Suc k) (c # cs))"
        show "\<forall>k < length cs. is_dir f ((pre @ [c]) @ take (Suc k) cs)"
        proof (intro allI impI)
          fix k assume "k < length cs"
          then have "Suc k < length (c # cs)" by simp
          with a have "is_dir f (pre @ take (Suc (Suc k)) (c # cs))" by blast
          then show "is_dir f ((pre @ [c]) @ take (Suc k) cs)" by simp
        qed
      next
        assume a: "\<forall>k < length cs. is_dir f ((pre @ [c]) @ take (Suc k) cs)"
        show "\<forall>k < length (c # cs). is_dir f (pre @ take (Suc k) (c # cs))"
        proof (intro allI impI)
          fix k assume "k < length (c # cs)"
          show "is_dir f (pre @ take (Suc k) (c # cs))"
          proof (cases k)
            case 0
            with d show ?thesis by simp
          next
            case (Suc j)
            with \<open>k < length (c # cs)\<close> have "j < length cs" by simp
            with a have "is_dir f ((pre @ [c]) @ take (Suc j) cs)" by blast
            with Suc show ?thesis by simp
          qed
        qed
      qed
      with Some Dir Cons.IH[of "pre @ [c]"] show ?thesis by simp
    qed
  qed
qed

lemma strict_prefix_butlast:
  "strict_prefix q p \<longleftrightarrow> (\<exists>k \<le> length (butlast p). p \<noteq> [] \<and> q = take k (butlast p))"
proof
  assume "strict_prefix q p"
  then obtain z zs where p: "p = q @ z # zs" by (auto simp: strict_prefix_def prefix_def) (metis append_Nil2 neq_Nil_conv)
  then have "q = take (length q) (butlast p)" by (simp add: butlast_append)
  moreover from p have "length q \<le> length (butlast p)" by simp
  moreover from p have "p \<noteq> []" by simp
  ultimately show "\<exists>k \<le> length (butlast p). p \<noteq> [] \<and> q = take k (butlast p)" by blast
next
  assume "\<exists>k \<le> length (butlast p). p \<noteq> [] \<and> q = take k (butlast p)"
  then obtain k where k: "k \<le> length (butlast p)" "p \<noteq> []" "q = take k (butlast p)" by blast
  then have "prefix q (butlast p)" by (simp add: take_is_prefix)
  moreover have "strict_prefix (butlast p) p" using k(2)
    by (metis append_butlast_last_id strict_prefixI' )
  ultimately show "strict_prefix q p"
    using prefix_order.le_less_trans by blast
qed

lemma parent_ok_iff:
  "parent_error f p = None \<longleftrightarrow> (\<forall>q. strict_prefix q p \<longrightarrow> is_dir f q)"
proof
  assume a: "parent_error f p = None"
  show "\<forall>q. strict_prefix q p \<longrightarrow> is_dir f q"
  proof (intro allI impI)
    fix q assume "strict_prefix q p"
    then obtain k where k: "k \<le> length (butlast p)" "q = take k (butlast p)"
      by (auto simp: strict_prefix_butlast)
    show "is_dir f q"
    proof (cases k)
      case 0
      with k show ?thesis by simp
    next
      case (Suc j)
      with k have "j < length (butlast p)" by simp
      with a have "is_dir f ([] @ take (Suc j) (butlast p))"
        unfolding parent_error_def walk_None_iff by blast
      with k Suc show ?thesis by simp
    qed
  qed
next
  assume a: "\<forall>q. strict_prefix q p \<longrightarrow> is_dir f q"
  show "parent_error f p = None"
    unfolding parent_error_def walk_None_iff
  proof (intro allI impI)
    fix k assume k: "k < length (butlast p)"
    then have "p \<noteq> []" by auto
    with k have "strict_prefix (take (Suc k) (butlast p)) p"
      unfolding strict_prefix_butlast by (intro exI[of _ "Suc k"]) simp
    with a show "is_dir f ([] @ take (Suc k) (butlast p))" by simp
  qed
qed

lemma parent_ok_root [simp]: "parent_error f [] = None"
  by (simp add: parent_error_def)

lemma parent_ok_parent:
  assumes "parent_error f p = None"
  shows "is_dir f (butlast p)" and "parent_error f (butlast p) = None"
proof -
  show "is_dir f (butlast p)"
  proof (cases "p = []")
    case True then show ?thesis by simp
  next
    case False
    then have "strict_prefix (butlast p) p" by (metis append_butlast_last_id strict_prefixI')
    with assms show ?thesis by (simp add: parent_ok_iff)
  qed
  show "parent_error f (butlast p) = None"
    unfolding parent_ok_iff
  proof (intro allI impI)
    fix q assume "strict_prefix q (butlast p)"
    then have "strict_prefix q p"
      by (metis butlast.simps(1) append_butlast_last_id prefix_order.less_trans strict_prefixI' strict_prefix_simps(1))
    with assms show "is_dir f q" by (simp add: parent_ok_iff)
  qed
qed

lemma lookup_delete: "lookup (AList.delete k f) p = (if p = k \<and> p \<noteq> [] then None else lookup f p)"
  by (auto simp: lookup_def AList.delete_conv')

lemma lookup_update: "k \<noteq> [] \<Longrightarrow> lookup (AList.update k v f) p = (if p = k then Some v else lookup f p)"
  by (auto simp: lookup_def AList.update_conv')

lemma is_file_nonroot: "is_file f p \<Longrightarrow> p \<noteq> []"
  by (auto simp: is_file_def lookup_def)

lemma is_file_exists: "is_file f p \<Longrightarrow> path_exists f p"
  by (auto simp: is_file_def path_exists_def split: option.splits)

lemma wf_parent_ok: "wf_fs f \<Longrightarrow> path_exists f p \<Longrightarrow> parent_error f p = None"
proof (cases "p = []")
  case True
  then show ?thesis by (simp add: parent_error_def)
next
  case False
  assume "wf_fs f" "path_exists f p"
  with False obtain n where "map_of f p = Some n"
    by (auto simp: path_exists_def lookup_def)
  then have "(p, n) \<in> set f" by (rule map_of_SomeD)
  with \<open>wf_fs f\<close> show ?thesis by (auto simp: wf_fs_def)
qed

lemma os_unlink_file:
  "is_file f p \<Longrightarrow> parent_error f p = None \<Longrightarrow> os_unlink p f = Inr (AList.delete p f)"
  by (auto simp: os_unlink_def is_file_def split: option.splits node.splits)


subsection \<open>ApprovalGate and delete_file\<close>

lemma input_line_fs: "input_line w = (r, w1) \<Longrightarrow> fs w1 = fs w"
  by (auto simp: input_line_def split: list.splits)

lemma require_approval_fs: "require_approval cfg lb a d w = (r, w1) \<Longrightarrow> fs w1 = fs w"
  by (auto simp: require_approval_def dest: input_line_fs split: if_splits prod.splits sum.splits)

lemma double_confirm_fs:
  assumes "double_confirm_delete cfg lb p w = (r, w2)"
  shows "fs w2 = fs w"
proof -
  obtain r1 w1 where a: "require_approval cfg lb (U ''DELETE_FILE (1/2)'') (str_path p) w = (r1, w1)"
    by (cases "require_approval cfg lb (U ''DELETE_FILE (1/2)'') (str_path p) w")
  then have f1: "fs w1 = fs w" by (rule require_approval_fs)
  obtain r2 w3 where b: "input_line w1 = (r2, w3)" by (cases "input_line w1")
  then have f2: "fs w3 = fs w1" by (rule input_line_fs)
  from assms a b have "w2 = w1 \<or> w2 = w3"
    by (auto simp: double_confirm_delete_def split: sum.splits if_splits)
  with f1 f2 show ?thesis by auto
qed

lemma double_confirm_True:
  "double_confirm_delete cfg lb p w = (Inr True, w2) \<Longrightarrow>
     \<exists>w1 t rest. require_approval cfg lb (U ''DELETE_FILE (1/2)'') (str_path p) w = (Inr True, w1)
        \<and> stdin w1 = t # rest \<and> strip t = path_name p"
  by (auto simp: double_confirm_delete_def input_line_def
      split: if_splits prod.splits sum.splits list.splits)

lemma double_confirm_mismatch:
  "require_approval cfg lb (U ''DELETE_FILE (1/2)'') (str_path p) w = (Inr True, w1) \<Longrightarrow>
   stdin w1 = t # rest \<Longrightarrow> strip t \<noteq> path_name p \<Longrightarrow>
   double_confirm_delete cfg lb p w = (Inr False, w1\<lparr>stdin := rest\<rparr>)"
  by (simp add: double_confirm_delete_def input_line_def)

lemma tool_delete_changes:
  assumes "tool_delete_file cfg lb path w = (r, w')" and "fs w' \<noteq> fs w"
  shows "\<exists>p w2. safe_path cfg path = Inr p \<and> double_confirm_delete cfg lb p w = (Inr True, w2)"
  using assms
  by (auto simp: tool_delete_file_def dest: double_confirm_fs
      split: sum.splits if_splits prod.splits)

text \<open>
  C3.  For an existing regular file, \<open>tool_delete_file\<close> changes the file system only if
  the first gate returned true and the line typed next, stripped of surrounding white
  space (all that \<open>str.strip\<close> removes, a no-break space too), is the file's name; when the first gate is accepted and the typed line differs,
  the result is the failure "Borrado cancelado por el usuario." and the file system is
  unchanged, the file still being there.
\<close>

theorem delete_needs_both_gates:
  assumes "safe_path cfg path = Inr p" and "is_file (fs w) p"
    and "tool_delete_file cfg lb path w = (r, w')"
  shows "(fs w' \<noteq> fs w \<longrightarrow>
            (\<exists>w1 t rest. require_approval cfg lb (U ''DELETE_FILE (1/2)'') (str_path p) w = (Inr True, w1)
               \<and> stdin w1 = t # rest \<and> strip t = path_name p))
       \<and> (\<forall>w1 t rest. require_approval cfg lb (U ''DELETE_FILE (1/2)'') (str_path p) w = (Inr True, w1)
               \<longrightarrow> stdin w1 = t # rest \<longrightarrow> strip t \<noteq> path_name p
               \<longrightarrow> r = Inr (failure (U ''Borrado cancelado por el usuario.''))
                   \<and> fs w' = fs w \<and> is_file (fs w') p)"
proof (intro conjI impI allI)
  assume "fs w' \<noteq> fs w"
  with assms(3) obtain q w2 where "safe_path cfg path = Inr q"
    and "double_confirm_delete cfg lb q w = (Inr True, w2)"
    by (blast dest: tool_delete_changes)
  with assms(1) show "\<exists>w1 t rest. require_approval cfg lb (U ''DELETE_FILE (1/2)'') (str_path p) w = (Inr True, w1)
               \<and> stdin w1 = t # rest \<and> strip t = path_name p"
    by (auto dest: double_confirm_True)
next
  fix w1 t rest
  assume a: "require_approval cfg lb (U ''DELETE_FILE (1/2)'') (str_path p) w = (Inr True, w1)"
    "stdin w1 = t # rest" "strip t \<noteq> path_name p"
  then have d: "double_confirm_delete cfg lb p w = (Inr False, w1\<lparr>stdin := rest\<rparr>)"
    by (rule double_confirm_mismatch)
  have f: "fs w1 = fs w" using a(1) by (rule require_approval_fs)
  have res: "tool_delete_file cfg lb path w = (Inr (failure (U ''Borrado cancelado por el usuario.'')), w1\<lparr>stdin := rest\<rparr>)"
    using assms(1,2) d by (simp add: tool_delete_file_def is_file_exists)
  with assms(3) have "r = Inr (failure (U ''Borrado cancelado por el usuario.''))" and "w' = w1\<lparr>stdin := rest\<rparr>"
    by simp_all
  with f assms(2) show "r = Inr (failure (U ''Borrado cancelado por el usuario.''))" "fs w' = fs w" "is_file (fs w') p"
    by simp_all
qed

theorem delete_needs_both_gates_witness:
  "fst (tool_delete_file cfg0 lib0 (U ''a.txt'') (w0\<lparr>stdin := [(U ''s''), (U ''b.txt'')]\<rparr>))
     = Inr (failure (U ''Borrado cancelado por el usuario.''))
   \<and> fs (snd (tool_delete_file cfg0 lib0 (U ''a.txt'') (w0\<lparr>stdin := [(U ''s''), (U ''b.txt'')]\<rparr>))) = fs0
   \<and> is_file (fs (snd (tool_delete_file cfg0 lib0 (U ''a.txt'') (w0\<lparr>stdin := [(U ''s''), (U ''b.txt'')]\<rparr>)))) (ws0 @ [(U ''a.txt'')])
   \<and> \<not> path_exists (fs (snd (tool_delete_file cfg0 lib0 (U ''a.txt'')
                               (w0\<lparr>stdin := [(U ''s''), (U ''a.txt'') @ [0xA0]]\<rparr>)))) (ws0 @ [(U ''a.txt'')])"
proof -
  let ?w = "w0\<lparr>stdin := [(U ''s''), (U ''b.txt'')]\<rparr>"
  have h1: "safe_path cfg0 (U ''a.txt'') = Inr (ws0 @ [(U ''a.txt'')])" by code_simp
  have h2: "is_file (fs ?w) (ws0 @ [(U ''a.txt'')])" by code_simp
  have h3: "tool_delete_file cfg0 lib0 (U ''a.txt'') ?w
              = (fst (tool_delete_file cfg0 lib0 (U ''a.txt'') ?w), snd (tool_delete_file cfg0 lib0 (U ''a.txt'') ?w))"
    by simp
  have ans: "str_lower lib0 (strip (U ''s'')) = U ''s''" by code_simp
  have ap: "APPROVAL_REQUIRED cfg0" by (simp add: cfg0_def)
  have g: "require_approval cfg0 lib0 (U ''DELETE_FILE (1/2)'') (str_path (ws0 @ [(U ''a.txt'')])) ?w
             = (Inr True, ?w\<lparr>stdin := [(U ''b.txt'')]\<rparr>)"
    using ans ap by (simp add: require_approval_def input_line_def w0_def)
  have s: "stdin (?w\<lparr>stdin := [(U ''b.txt'')]\<rparr>) = (U ''b.txt'') # []" by simp
  have n: "strip (U ''b.txt'') \<noteq> path_name (ws0 @ [(U ''a.txt'')])" by code_simp
  have f: "fs ?w = fs0" by (simp add: w0_def)
  from delete_needs_both_gates[OF h1 h2 h3] g s n f
  have m: "fst (tool_delete_file cfg0 lib0 (U ''a.txt'') ?w)
             = Inr (failure (U ''Borrado cancelado por el usuario.''))
           \<and> fs (snd (tool_delete_file cfg0 lib0 (U ''a.txt'') ?w)) = fs0
           \<and> is_file (fs (snd (tool_delete_file cfg0 lib0 (U ''a.txt'') ?w))) (ws0 @ [(U ''a.txt'')])"
    by metis
  have x: "\<not> path_exists (fs (snd (tool_delete_file cfg0 lib0 (U ''a.txt'')
                               (w0\<lparr>stdin := [(U ''s''), (U ''a.txt'') @ [0xA0]]\<rparr>)))) (ws0 @ [(U ''a.txt'')])"
    by code_simp
  show ?thesis
    by (intro conjI) (rule m[THEN conjunct1], rule m[THEN conjunct2, THEN conjunct1],
        rule m[THEN conjunct2, THEN conjunct2], rule x)
qed

text \<open>
  C10.  With \<open>APPROVAL_REQUIRED\<close> false the first gate passes unasked, and the second
  still reads a line: for an existing regular file the call deletes it exactly when the
  typed line, stripped of all that \<open>str.strip\<close> removes, is the file's name; otherwise it answers "Borrado cancelado por
  el usuario." and changes nothing.  With no line to read it raises EOFError.
\<close>

theorem second_gate_without_approval:
  assumes "\<not> APPROVAL_REQUIRED cfg" and "wf_fs (fs w)"
    and "safe_path cfg path = Inr p" and "is_file (fs w) p"
  shows "(stdin w = [] \<longrightarrow> tool_delete_file cfg lb path w = (Inl EOFError, w))
       \<and> (\<forall>t rest. stdin w = t # rest \<longrightarrow>
            tool_delete_file cfg lb path w =
              (if strip t = path_name p
               then (Inr [((U ''ok''), VBool True), ((U ''deleted''), VStr (str_path p))],
                     w\<lparr>stdin := rest, fs := AList.delete p (fs w)\<rparr>)
               else (Inr (failure (U ''Borrado cancelado por el usuario.'')), w\<lparr>stdin := rest\<rparr>)))
       \<and> \<not> path_exists (AList.delete p (fs w)) p"
proof -
  have ex: "path_exists (fs w) p" using assms(4) by (rule is_file_exists)
  have ne: "p \<noteq> []" using assms(4) by (rule is_file_nonroot)
  have po: "parent_error (fs w) p = None" using assms(2) ex by (rule wf_parent_ok)
  have ul: "os_unlink p (fs w) = Inr (AList.delete p (fs w))"
    using assms(4) po by (rule os_unlink_file)
  have gone: "\<not> path_exists (AList.delete p (fs w)) p"
    using ne by (simp add: path_exists_def lookup_delete)
  have e: "stdin w = [] \<longrightarrow> tool_delete_file cfg lb path w = (Inl EOFError, w)"
    using assms(1,3,4) ex
    by (simp add: tool_delete_file_def double_confirm_delete_def require_approval_def input_line_def)
  have t: "\<forall>t rest. stdin w = t # rest \<longrightarrow>
            tool_delete_file cfg lb path w =
              (if strip t = path_name p
               then (Inr [((U ''ok''), VBool True), ((U ''deleted''), VStr (str_path p))],
                     w\<lparr>stdin := rest, fs := AList.delete p (fs w)\<rparr>)
               else (Inr (failure (U ''Borrado cancelado por el usuario.'')), w\<lparr>stdin := rest\<rparr>))"
    using assms(1,3,4) ex ul
    by (simp add: tool_delete_file_def double_confirm_delete_def require_approval_def input_line_def)
  from e t gone show ?thesis by blast
qed

theorem second_gate_without_approval_witness:
  "fst (tool_delete_file cfg1 lib0 (U ''a.txt'') (w0\<lparr>stdin := [(U ''a.txt'')]\<rparr>))
     = Inr [((U ''ok''), VBool True), ((U ''deleted''), VStr (str_path (ws0 @ [(U ''a.txt'')])))]
   \<and> \<not> path_exists (fs (snd (tool_delete_file cfg1 lib0 (U ''a.txt'') (w0\<lparr>stdin := [(U ''a.txt'')]\<rparr>)))) (ws0 @ [(U ''a.txt'')])
   \<and> fst (tool_delete_file cfg1 lib0 (U ''a.txt'') (w0\<lparr>stdin := [(U ''s'')]\<rparr>))
     = Inr (failure (U ''Borrado cancelado por el usuario.''))
   \<and> fs (snd (tool_delete_file cfg1 lib0 (U ''a.txt'') (w0\<lparr>stdin := [(U ''s'')]\<rparr>))) = fs0
   \<and> fst (tool_delete_file cfg1 lib0 (U ''a.txt'') (w0\<lparr>stdin := [[0x2003] @ (U ''a.txt'') @ [0xA0]]\<rparr>))
     = Inr [((U ''ok''), VBool True), ((U ''deleted''), VStr (str_path (ws0 @ [(U ''a.txt'')])))]"
proof -
  have h1: "\<not> APPROVAL_REQUIRED cfg1" by (simp add: cfg1_def)
  have wf: "wf_fs fs0" by code_simp
  have h3: "safe_path cfg1 (U ''a.txt'') = Inr (ws0 @ [(U ''a.txt'')])" by code_simp
  have h4: "is_file fs0 (ws0 @ [(U ''a.txt'')])" by code_simp
  have y: "strip (U ''a.txt'') = path_name (ws0 @ [(U ''a.txt'')])" by code_simp
  have n: "strip (U ''s'') \<noteq> path_name (ws0 @ [(U ''a.txt'')])" by code_simp
  have z: "strip ([0x2003] @ (U ''a.txt'') @ [0xA0]) = path_name (ws0 @ [(U ''a.txt'')])" by code_simp
  let ?wa = "w0\<lparr>stdin := [(U ''a.txt'')]\<rparr>" and ?wb = "w0\<lparr>stdin := [(U ''s'')]\<rparr>"
  let ?wc = "w0\<lparr>stdin := [[0x2003] @ (U ''a.txt'') @ [0xA0]]\<rparr>"
  have fa: "fs ?wa = fs0" "fs ?wb = fs0" "fs ?wc = fs0" by (simp_all add: w0_def)
  have sa: "stdin ?wa = (U ''a.txt'') # []" "stdin ?wb = (U ''s'') # []"
    "stdin ?wc = ([0x2003] @ (U ''a.txt'') @ [0xA0]) # []" by simp_all
  from second_gate_without_approval[where cfg=cfg1 and w="?wa" and path="(U ''a.txt'')"
         and p="ws0 @ [(U ''a.txt'')]" and lb=lib0] h1 wf h3 h4 fa(1) sa(1) y
  have a: "tool_delete_file cfg1 lib0 (U ''a.txt'') ?wa
            = (Inr [((U ''ok''), VBool True), ((U ''deleted''), VStr (str_path (ws0 @ [(U ''a.txt'')])))],
               ?wa\<lparr>stdin := [], fs := AList.delete (ws0 @ [(U ''a.txt'')]) fs0\<rparr>)"
    and g: "\<not> path_exists (AList.delete (ws0 @ [(U ''a.txt'')]) fs0) (ws0 @ [(U ''a.txt'')])"
    by simp_all
  from second_gate_without_approval[where cfg=cfg1 and w="?wb" and path="(U ''a.txt'')"
         and p="ws0 @ [(U ''a.txt'')]" and lb=lib0] h1 wf h3 h4 fa(2) sa(2) n
  have b: "tool_delete_file cfg1 lib0 (U ''a.txt'') ?wb
            = (Inr (failure (U ''Borrado cancelado por el usuario.'')), ?wb\<lparr>stdin := []\<rparr>)"
    by simp
  from second_gate_without_approval[where cfg=cfg1 and w="?wc" and path="(U ''a.txt'')"
         and p="ws0 @ [(U ''a.txt'')]" and lb=lib0] h1 wf h3 h4 fa(3) sa(3) z
  have c: "tool_delete_file cfg1 lib0 (U ''a.txt'') ?wc
            = (Inr [((U ''ok''), VBool True), ((U ''deleted''), VStr (str_path (ws0 @ [(U ''a.txt'')])))],
               ?wc\<lparr>stdin := [], fs := AList.delete (ws0 @ [(U ''a.txt'')]) fs0\<rparr>)"
    by simp
  from a b c g fa show ?thesis by simp
qed

subsection \<open>write_file and read_file\<close>

lemma is_dir_update_file:
  "k \<noteq> [] \<Longrightarrow> q \<noteq> k \<Longrightarrow> is_dir (AList.update k v f) q = is_dir f q"
  by (simp add: is_dir_def lookup_update)

lemma strict_prefix_neq: "strict_prefix q p \<Longrightarrow> q \<noteq> p"
  by auto

lemma parent_ok_update:
  "k \<noteq> [] \<Longrightarrow> parent_error f p = None \<Longrightarrow> \<not> strict_prefix k p
     \<Longrightarrow> parent_error (AList.update k v f) p = None"
  unfolding parent_ok_iff by (metis is_dir_update_file)

lemma write_file_node_Inr:
  assumes "write_file_node p c f = Inr f2"
  shows "f2 = AList.update p (File c) f" and "parent_error f p = None" and "p \<noteq> []"
  using assms by (auto simp: write_file_node_def split: option.splits if_splits)

lemma write_text_None:
  assumes "write_text lb p c f = (None, f2)"
  shows "f2 = AList.update p (File (newline_out lb c)) f" and "parent_error f p = None"
    and "p \<noteq> []" and "encodable c" and "\<not> is_dir f p"
  using assms
  by (auto simp: write_text_def write_file_node_def split: option.splits if_splits sum.splits)

lemma read_after_write:
  assumes "write_text lb p c f = (None, f2)"
  shows "path_exists f2 p" and "read_text p f2 = Inr (universal_newlines (newline_out lb c))"
proof -
  note u = write_text_None[OF assms]
  have l: "lookup f2 p = Some (File (newline_out lb c))" using u(1,3) by (simp add: lookup_update)
  then show "path_exists f2 p" by (simp add: path_exists_def)
  have "parent_error f2 p = None" unfolding u(1) using u(3) u(2)
    by (rule parent_ok_update) simp
  with l show "read_text p f2 = Inr (universal_newlines (newline_out lb c))"
    by (simp add: read_text_def read_file_node_def)
qed

lemma tool_write_file_ok:
  assumes "tool_write_file cfg lb path content ov w = (Inr res, w1)"
    and "dict_get res (U ''ok'') VNone = VBool True"
  shows "\<exists>p f1. safe_path cfg path = Inr p \<and> write_text lb p content f1 = (None, fs w1)
           \<and> dict_get res (U ''path'') VNone = VStr (str_path p)"
proof (cases "safe_path cfg path")
  case (Inl e)
  with assms(1) show ?thesis by (simp add: tool_write_file_def)
next
  case (Inr p)
  let ?d = "str_path p @ (U '' (overwrite='') @ str_bool ov @ (U '')'')"
  show ?thesis
  proof (cases "path_exists (fs w) p \<and> \<not> ov")
    case True
    with Inr assms show ?thesis by (auto simp: tool_write_file_def failure_def dict_get_def)
  next
    case False
    then have c: "(path_exists (fs w) p \<and> \<not> ov) = False" by simp
    obtain ra wa where ra: "\<And>a d. require_approval cfg lb a d w = (ra, wa)"
      by (cases "require_approval cfg lb [] [] w") (simp add: require_approval_def)
    show ?thesis
    proof (cases ra)
      case (Inl e)
      with Inr ra assms(1) show ?thesis by (simp add: tool_write_file_def c)
    next
      case ok: (Inr ok)
      show ?thesis
      proof (cases ok)
        case False
        with Inr ra ok assms show ?thesis
          by (auto simp: tool_write_file_def failure_def dict_get_def c)
      next
        case True
        obtain eo f1 where mk: "path_mkdir (path_parent p) (fs wa) = (eo, f1)"
          by (cases "path_mkdir (path_parent p) (fs wa)")
        show ?thesis
        proof (cases eo)
          case (Some e)
          with Inr ra ok True mk assms(1) show ?thesis
            by (simp add: tool_write_file_def c)
        next
          case None
          obtain e2 f2 where wt: "write_text lb p content f1 = (e2, f2)"
            by (cases "write_text lb p content f1")
          show ?thesis
          proof (cases e2)
            case (Some e)
            with Inr ra ok True mk None wt assms(1) show ?thesis
              by (simp add: tool_write_file_def c)
          next
            case n2: None
            with Inr ra ok True mk None wt assms(1)
            have "fs w1 = f2" and "dict_get res (U ''path'') VNone = VStr (str_path p)"
              by (auto simp: tool_write_file_def Let_def dict_get_def c)
            with Inr wt n2 show ?thesis by blast
          qed
        qed
      qed
    qed
  qed
qed

lemma universal_newlines_id: "(13::nat) \<notin> set s \<Longrightarrow> universal_newlines s = s"
  by (induction s rule: universal_newlines.induct) auto

lemma universal_newlines_Cons:
  "c \<noteq> (13::nat) \<Longrightarrow> universal_newlines (c # s) = c # universal_newlines s"
  by (cases s) simp_all

lemma newline_round_trip:
  assumes "(13::nat) \<notin> set s" and "os_linesep lb = [10] \<or> os_linesep lb = [13, 10]"
  shows "universal_newlines (newline_out lb s) = s"
  using assms(2)
proof
  assume "os_linesep lb = [10]"
  then have "newline_out lb s = s" by (induction s) (simp_all add: newline_out_def)
  with assms(1) show ?thesis by (simp add: universal_newlines_id)
next
  assume w: "os_linesep lb = [13, 10]"
  from assms(1) show ?thesis
  proof (induction s)
    case Nil
    show ?case by (simp add: newline_out_def)
  next
    case (Cons c s)
    then have ih: "universal_newlines (newline_out lb s) = s" and c: "c \<noteq> 13" by auto
    have n: "newline_out lb (c # s) = (if c = 10 then [13, 10] else [c]) @ newline_out lb s"
      using w by (simp add: newline_out_def)
    show ?case
    proof (cases "c = 10")
      case True
      with n ih show ?thesis by simp
    next
      case False
      with n ih c show ?thesis by (simp add: universal_newlines_Cons)
    qed
  qed
qed

text \<open>
  C5 (amended).  After a successful \<open>tool_write_file\<close>, \<open>tool_read_file\<close> on the same
  path returns the text as a text-mode write and read carry it, every LF written as
  \<open>os.linesep\<close> and every CR LF and lone CR read back as LF: the whole of it when its
  length in code points is at most \<open>max_chars\<close>, else the slice \<open>data[:max_chars]\<close>
  followed by the marker.  On a host whose line separator is LF or CR LF, for a text
  without CR and \<open>max_chars \<ge> 0\<close>, that is the text written, or its first \<open>max_chars\<close>
  code points followed by the marker.
\<close>

theorem write_then_read:
  assumes "tool_write_file cfg lb path content ov w = (Inr res, w1)"
    and "dict_get res (U ''ok'') VNone = VBool True"
  shows "tool_read_file cfg path m w1 =
           (Inr [((U ''ok''), VBool True), ((U ''path''), dict_get res (U ''path'') VNone),
                 ((U ''content''), VStr (let d = universal_newlines (newline_out lb content)
                                     in if int (length d) > m then py_prefix m d @ cut_marker else d))],
            w1)
       \<and> ((13::nat) \<notin> set content \<longrightarrow> os_linesep lb = [10] \<or> os_linesep lb = [13, 10]
            \<longrightarrow> 0 \<le> m \<longrightarrow>
            tool_read_file cfg path m w1 =
              (Inr [((U ''ok''), VBool True), ((U ''path''), dict_get res (U ''path'') VNone),
                    ((U ''content''), VStr (if int (length content) > m
                                        then take (nat m) content @ cut_marker else content))],
               w1))"
proof -
  from tool_write_file_ok[OF assms] obtain p f1 where
    p: "safe_path cfg path = Inr p" and wr: "write_text lb p content f1 = (None, fs w1)"
    and rp: "dict_get res (U ''path'') VNone = VStr (str_path p)" by blast
  note ra = read_after_write[OF wr]
  have g: "tool_read_file cfg path m w1 =
           (Inr [((U ''ok''), VBool True), ((U ''path''), dict_get res (U ''path'') VNone),
                 ((U ''content''), VStr (let d = universal_newlines (newline_out lb content)
                                     in if int (length d) > m then py_prefix m d @ cut_marker else d))],
            w1)"
    using p ra rp by (simp add: tool_read_file_def Let_def)
  moreover have "(13::nat) \<notin> set content \<longrightarrow> os_linesep lb = [10] \<or> os_linesep lb = [13, 10]
            \<longrightarrow> 0 \<le> m \<longrightarrow>
            tool_read_file cfg path m w1 =
              (Inr [((U ''ok''), VBool True), ((U ''path''), dict_get res (U ''path'') VNone),
                    ((U ''content''), VStr (if int (length content) > m
                                        then take (nat m) content @ cut_marker else content))],
               w1)"
  proof (intro impI)
    assume c: "(13::nat) \<notin> set content" and l: "os_linesep lb = [10] \<or> os_linesep lb = [13, 10]"
      and m: "0 \<le> m"
    have "universal_newlines (newline_out lb content) = content"
      using c l by (rule newline_round_trip)
    with g m show "tool_read_file cfg path m w1 =
              (Inr [((U ''ok''), VBool True), ((U ''path''), dict_get res (U ''path'') VNone),
                    ((U ''content''), VStr (if int (length content) > m
                                        then take (nat m) content @ cut_marker else content))],
               w1)"
      by (simp add: py_prefix_def Let_def)
  qed
  ultimately show ?thesis by (rule conjI)
qed

theorem write_then_read_witness:
  "fst (tool_read_file cfg0 (U ''n.txt'') 4 w_after_write)
     = Inr [((U ''ok''), VBool True), ((U ''path''), VStr (U ''/home/u/AGENT_WORKSPACE/n.txt'')),
            ((U ''content''), VStr ((U ''hola'') @ cut_marker))]
   \<and> fst (tool_read_file cfg0 (U ''n.txt'') 6000 w_after_write)
     = Inr [((U ''ok''), VBool True), ((U ''path''), VStr (U ''/home/u/AGENT_WORKSPACE/n.txt'')),
            ((U ''content''), VStr (U ''hola mundo''))]
   \<and> fst (tool_read_file cfg0 (U ''n.txt'') 4 w_after_accent)
     = Inr [((U ''ok''), VBool True), ((U ''path''), VStr (U ''/home/u/AGENT_WORKSPACE/n.txt'')),
            ((U ''content''), VStr [97, 0xF1, 10, 98])]"
proof -
  let ?w = "w0\<lparr>stdin := [(U ''s'')]\<rparr>"
  let ?res = "[((U ''ok''), VBool True), ((U ''path''), VStr (U ''/home/u/AGENT_WORKSPACE/n.txt'')),
               ((U ''exists''), VBool True), ((U ''size''), VInt 10)]"
  let ?res2 = "[((U ''ok''), VBool True), ((U ''path''), VStr (U ''/home/u/AGENT_WORKSPACE/n.txt'')),
               ((U ''exists''), VBool True), ((U ''size''), VInt 6)]"
  have r: "fst (tool_write_file cfg0 lib0 (U ''n.txt'') (U ''hola mundo'') False ?w) = Inr ?res" by code_simp
  then have h1: "tool_write_file cfg0 lib0 (U ''n.txt'') (U ''hola mundo'') False ?w = (Inr ?res, w_after_write)"
    unfolding w_after_write_def by (metis prod.collapse)
  have h2: "dict_get ?res (U ''ok'') VNone = VBool True" by code_simp
  have c: "(13::nat) \<notin> set (U ''hola mundo'')" by code_simp
  have l: "os_linesep lib0 = [10] \<or> os_linesep lib0 = [13, 10]" by (simp add: lib0_def)
  have pth: "dict_get ?res (U ''path'') VNone = VStr (U ''/home/u/AGENT_WORKSPACE/n.txt'')" by code_simp
  have pp: "take (nat 4) (U ''hola mundo'') = (U ''hola'')" by code_simp
  have len: "length (U ''hola mundo'') = 10" by code_simp
  note t1 = write_then_read[OF h1 h2, of 4, THEN conjunct2, rule_format, OF c l]
  have a: "tool_read_file cfg0 (U ''n.txt'') 4 w_after_write =
             (Inr [((U ''ok''), VBool True), ((U ''path''), VStr (U ''/home/u/AGENT_WORKSPACE/n.txt'')),
                   ((U ''content''), VStr ((U ''hola'') @ cut_marker))], w_after_write)"
    using t1 by (simp only: pth pp len) simp
  note t2 = write_then_read[OF h1 h2, of 6000, THEN conjunct2, rule_format, OF c l]
  have b: "tool_read_file cfg0 (U ''n.txt'') 6000 w_after_write =
             (Inr [((U ''ok''), VBool True), ((U ''path''), VStr (U ''/home/u/AGENT_WORKSPACE/n.txt'')),
                   ((U ''content''), VStr (U ''hola mundo''))], w_after_write)"
    using t2 by (simp only: pth len) simp
  have r2: "fst (tool_write_file cfg0 lib_win (U ''n.txt'') [97, 0xF1, 10, 98] False ?w) = Inr ?res2"
    by code_simp
  then have g1: "tool_write_file cfg0 lib_win (U ''n.txt'') [97, 0xF1, 10, 98] False ?w
                   = (Inr ?res2, w_after_accent)"
    unfolding w_after_accent_def by (metis prod.collapse)
  have g2: "dict_get ?res2 (U ''ok'') VNone = VBool True" by code_simp
  have c2: "(13::nat) \<notin> set [97, 0xF1, 10, 98]" by simp
  have l2: "os_linesep lib_win = [10] \<or> os_linesep lib_win = [13, 10]" by (simp add: lib_win_def)
  have pth2: "dict_get ?res2 (U ''path'') VNone = VStr (U ''/home/u/AGENT_WORKSPACE/n.txt'')" by code_simp
  note t3 = write_then_read[OF g1 g2, of 4, THEN conjunct2, rule_format, OF c2 l2]
  have d: "tool_read_file cfg0 (U ''n.txt'') 4 w_after_accent =
             (Inr [((U ''ok''), VBool True), ((U ''path''), VStr (U ''/home/u/AGENT_WORKSPACE/n.txt'')),
                   ((U ''content''), VStr [97, 0xF1, 10, 98])], w_after_accent)"
    using t3 by (simp only: pth2) simp
  from a b d show ?thesis by simp
qed

text \<open>
  The claim as stated fails on a text with a carriage return.  On a POSIX host \<open>a CR b\<close>
  is written, the write succeeds, and the read gives \<open>a LF b\<close>, which is not the text
  written although it is shorter than \<open>max_chars\<close>.  On Windows \<open>a CR LF b\<close> is stored as
  \<open>a CR CR LF b\<close> and read back as \<open>a LF LF b\<close>.
\<close>

theorem write_then_read_counterexample:
  "fst (tool_write_file cfg0 lib0 (U ''n.txt'') [(97::nat), (13::nat), (98::nat)] False (w0\<lparr>stdin := [(U ''s'')]\<rparr>))
     = Inr [((U ''ok''), VBool True), ((U ''path''), VStr (U ''/home/u/AGENT_WORKSPACE/n.txt'')),
            ((U ''exists''), VBool True), ((U ''size''), VInt 3)]
   \<and> fst (tool_read_file cfg0 (U ''n.txt'') 6000
           (snd (tool_write_file cfg0 lib0 (U ''n.txt'') [(97::nat), (13::nat), (98::nat)] False (w0\<lparr>stdin := [(U ''s'')]\<rparr>))))
     = Inr [((U ''ok''), VBool True), ((U ''path''), VStr (U ''/home/u/AGENT_WORKSPACE/n.txt'')),
            ((U ''content''), VStr [(97::nat), (10::nat), (98::nat)])]
   \<and> [(97::nat), (10::nat), (98::nat)] \<noteq> [(97::nat), (13::nat), (98::nat)]
   \<and> fst (tool_write_file cfg0 lib_win (U ''n.txt'') [(97::nat), 13, 10, 98] False (w0\<lparr>stdin := [(U ''s'')]\<rparr>))
     = Inr [((U ''ok''), VBool True), ((U ''path''), VStr (U ''/home/u/AGENT_WORKSPACE/n.txt'')),
            ((U ''exists''), VBool True), ((U ''size''), VInt 5)]
   \<and> fst (tool_read_file cfg0 (U ''n.txt'') 6000
           (snd (tool_write_file cfg0 lib_win (U ''n.txt'') [(97::nat), 13, 10, 98] False (w0\<lparr>stdin := [(U ''s'')]\<rparr>))))
     = Inr [((U ''ok''), VBool True), ((U ''path''), VStr (U ''/home/u/AGENT_WORKSPACE/n.txt'')),
            ((U ''content''), VStr [(97::nat), 10, 10, 98])]
   \<and> [(97::nat), 10, 10, 98] \<noteq> [(97::nat), 13, 10, 98]"
  by code_simp

subsection \<open>rename_file\<close>

lemma require_approval_indep: "require_approval cfg lb a d w = require_approval cfg lb a' d' w"
  by (simp add: require_approval_def)

lemma path_mkdir_existing:
  assumes "parent_error f d = None" and "is_dir f d"
  shows "path_mkdir d f = (None, f)"
proof -
  from assms have "os_mkdir d f = Inl EEXIST"
    by (simp add: os_mkdir_def path_exists_def is_dir_def)
  with assms(2) show ?thesis by (subst path_mkdir.simps) simp
qed

lemma is_dir_delete_file: "is_file f k \<Longrightarrow> is_dir (AList.delete k f) q = is_dir f q"
  by (auto simp: is_dir_def is_file_def lookup_delete split: option.splits node.splits)

lemma parent_ok_delete_file:
  "is_file f k \<Longrightarrow> parent_error f p = None \<Longrightarrow> parent_error (AList.delete k f) p = None"
  unfolding parent_ok_iff by (simp add: is_dir_delete_file)

lemma is_file_lookup: "is_file f p \<longleftrightarrow> (\<exists>c. lookup f p = Some (File c))"
  by (auto simp: is_file_def split: option.splits node.splits)

lemma rename_body_overwrite_file:
  assumes wf: "wf_fs f" and s: "lookup f sp = Some (File c)" and d: "is_file f dp" and ne: "sp \<noteq> dp"
  shows "rename_body sp dp True f =
           (None, AList.update dp (File c) (AList.delete sp (AList.delete dp f)))"
proof -
  have sf: "is_file f sp" using s by (simp add: is_file_lookup)
  have pd: "parent_error f dp = None" using wf d by (simp add: wf_parent_ok is_file_exists)
  have ps: "parent_error f sp = None" using wf sf by (simp add: wf_parent_ok is_file_exists)
  have mk: "path_mkdir (path_parent dp) f = (None, f)"
    unfolding path_parent_def using pd by (intro path_mkdir_existing parent_ok_parent)
  have ul: "os_unlink dp f = Inr (AList.delete dp f)" using d pd by (rule os_unlink_file)
  let ?f2 = "AList.delete dp f"
  have dne: "dp \<noteq> []" using d by (rule is_file_nonroot)
  have l2: "lookup ?f2 sp = Some (File c)" using s ne by (simp add: lookup_delete)
  have nd: "\<not> is_dir ?f2 dp" using dne by (simp add: is_dir_def lookup_delete)
  have p2: "parent_error ?f2 sp = None" "parent_error ?f2 dp = None"
    using d ps pd by (simp_all add: parent_ok_delete_file)
  have rn: "os_rename sp dp ?f2 = Inr (AList.update dp (File c) (AList.delete sp ?f2))"
    using l2 nd p2 ne by (simp add: os_rename_def)
  show ?thesis using mk ul rn d by (simp add: rename_body_def is_file_exists)
qed

lemma rename_body_onto_dir:
  assumes wf: "wf_fs f" and d: "is_dir f dp"
  shows "rename_body sp dp True f = (Some (OSErr EISDIR dp None), f)"
proof -
  have ex: "path_exists f dp" using d by (simp add: path_exists_def is_dir_def)
  have pd: "parent_error f dp = None" using wf ex by (rule wf_parent_ok)
  have mk: "path_mkdir (path_parent dp) f = (None, f)"
    unfolding path_parent_def using pd by (intro path_mkdir_existing parent_ok_parent)
  have ul: "os_unlink dp f = Inl EISDIR" using d pd by (simp add: os_unlink_def is_dir_def)
  show ?thesis using mk ul ex by (simp add: rename_body_def)
qed

text \<open>
  C4 (amended).  For an existing regular source file and an existing destination:
  with \<open>overwrite=false\<close> the call returns the failure "Destino ya existe..." and changes
  nothing.  With \<open>overwrite=true\<close> and approval granted, in a well-formed file system:
  when the destination is a regular file other than the source, the call returns
  \<open>ok=true\<close>, the destination holds the source's text, the source is gone and no other
  path changes; when the destination is a directory, the call returns \<open>ok=false\<close> with
  the text of the error that \<open>unlink\<close> raised on the directory, and the file system is
  unchanged.
\<close>

theorem rename_onto_existing:
  assumes "safe_path cfg src = Inr sp" and "safe_path cfg dst = Inr dp"
    and "lookup (fs w) sp = Some (File c)" and "path_exists (fs w) dp"
  shows "tool_rename_file cfg lb src dst False w =
           (Inr (failure (U ''Destino ya existe. Usa overwrite=true para reemplazar.'')), w)
       \<and> (wf_fs (fs w) \<longrightarrow> is_file (fs w) dp \<longrightarrow> sp \<noteq> dp \<longrightarrow>
            require_approval cfg lb (U ''RENAME_FILE'') details w = (Inr True, w1) \<longrightarrow>
            fst (tool_rename_file cfg lb src dst True w) =
                Inr [((U ''ok''), VBool True), ((U ''from''), VStr (str_path sp)), ((U ''to''), VStr (str_path dp))]
            \<and> lookup (fs (snd (tool_rename_file cfg lb src dst True w))) dp = Some (File c)
            \<and> \<not> path_exists (fs (snd (tool_rename_file cfg lb src dst True w))) sp
            \<and> (\<forall>q. q \<noteq> sp \<longrightarrow> q \<noteq> dp \<longrightarrow>
                  lookup (fs (snd (tool_rename_file cfg lb src dst True w))) q = lookup (fs w) q))
       \<and> (wf_fs (fs w) \<longrightarrow> is_dir (fs w) dp \<longrightarrow>
            require_approval cfg lb (U ''RENAME_FILE'') details w = (Inr True, w1) \<longrightarrow>
            tool_rename_file cfg lb src dst True w =
                (Inr (failure (exn_str lb (OSErr EISDIR dp None))), w1)
            \<and> fs w1 = fs w)"
proof (intro conjI impI)
  have sf: "is_file (fs w) sp" using assms(3) by (simp add: is_file_lookup)
  show "tool_rename_file cfg lb src dst False w =
           (Inr (failure (U ''Destino ya existe. Usa overwrite=true para reemplazar.'')), w)"
    using assms sf by (simp add: tool_rename_file_def is_file_exists)
  {
    assume wf: "wf_fs (fs w)" and d: "is_file (fs w) dp" and ne: "sp \<noteq> dp"
      and ap: "require_approval cfg lb (U ''RENAME_FILE'') details w = (Inr True, w1)"
    have ap': "\<And>a d. require_approval cfg lb a d w = (Inr True, w1)"
      using ap require_approval_indep by metis
    have f1: "fs w1 = fs w" using ap by (rule require_approval_fs)
    let ?f' = "AList.update dp (File c) (AList.delete sp (AList.delete dp (fs w)))"
    have rb: "rename_body sp dp True (fs w1) = (None, ?f')"
      unfolding f1 using wf assms(3) d ne by (rule rename_body_overwrite_file)
    have res: "tool_rename_file cfg lb src dst True w =
            (Inr [((U ''ok''), VBool True), ((U ''from''), VStr (str_path sp)), ((U ''to''), VStr (str_path dp))],
             w1\<lparr>fs := ?f'\<rparr>)"
      using assms(1,2) sf ap' rb by (simp add: tool_rename_file_def is_file_exists)
    have dne: "dp \<noteq> []" using d by (rule is_file_nonroot)
    have sne: "sp \<noteq> []" using sf by (rule is_file_nonroot)
    show "fst (tool_rename_file cfg lb src dst True w) =
                  Inr [((U ''ok''), VBool True), ((U ''from''), VStr (str_path sp)), ((U ''to''), VStr (str_path dp))]"
      using res by simp
    show "lookup (fs (snd (tool_rename_file cfg lb src dst True w))) dp = Some (File c)"
      using res dne by (simp add: lookup_update)
    show "\<not> path_exists (fs (snd (tool_rename_file cfg lb src dst True w))) sp"
      using res dne sne ne by (simp add: path_exists_def lookup_update lookup_delete)
    show "\<forall>q. q \<noteq> sp \<longrightarrow> q \<noteq> dp \<longrightarrow>
                    lookup (fs (snd (tool_rename_file cfg lb src dst True w))) q = lookup (fs w) q"
      using res dne by (simp add: lookup_update lookup_delete)
  }
  {
    assume wf: "wf_fs (fs w)" and d: "is_dir (fs w) dp"
      and ap: "require_approval cfg lb (U ''RENAME_FILE'') details w = (Inr True, w1)"
    have ap': "\<And>a d. require_approval cfg lb a d w = (Inr True, w1)"
      using ap require_approval_indep by metis
    show f1: "fs w1 = fs w" using ap by (rule require_approval_fs)
    have rb: "rename_body sp dp True (fs w1) = (Some (OSErr EISDIR dp None), fs w1)"
      unfolding f1 using wf d by (rule rename_body_onto_dir)
    show "tool_rename_file cfg lb src dst True w =
                (Inr (failure (exn_str lb (OSErr EISDIR dp None))), w1)"
      using assms(1,2) sf ap' rb by (simp add: tool_rename_file_def is_file_exists)
  }
qed

theorem rename_onto_existing_witness:
  "fst (tool_rename_file cfg0 lib0 (U ''a.txt'') (U ''b.txt'') False (w0\<lparr>stdin := [(U ''s'')]\<rparr>))
     = Inr (failure (U ''Destino ya existe. Usa overwrite=true para reemplazar.''))
   \<and> fst (tool_rename_file cfg0 lib0 (U ''a.txt'') (U ''b.txt'') True (w0\<lparr>stdin := [(U ''s'')]\<rparr>))
     = Inr [((U ''ok''), VBool True), ((U ''from''), VStr (str_path (ws0 @ [(U ''a.txt'')])))
           , ((U ''to''), VStr (str_path (ws0 @ [(U ''b.txt'')])))]
   \<and> lookup (fs (snd (tool_rename_file cfg0 lib0 (U ''a.txt'') (U ''b.txt'') True (w0\<lparr>stdin := [(U ''s'')]\<rparr>)))) (ws0 @ [(U ''b.txt'')])
     = Some (File (U ''hola''))
   \<and> \<not> path_exists (fs (snd (tool_rename_file cfg0 lib0 (U ''a.txt'') (U ''b.txt'') True (w0\<lparr>stdin := [(U ''s'')]\<rparr>)))) (ws0 @ [(U ''a.txt'')])
   \<and> fst (tool_rename_file cfg0 lib0 (U ''a.txt'') (U ''sub'') True (w0\<lparr>stdin := [(U ''s'')]\<rparr>))
     = Inr (failure (U ''[Errno 21] Is a directory: '' @ quoted (U ''/home/u/AGENT_WORKSPACE/sub'')))
   \<and> fs (snd (tool_rename_file cfg0 lib0 (U ''a.txt'') (U ''sub'') True (w0\<lparr>stdin := [(U ''s'')]\<rparr>))) = fs0"
proof -
  let ?w = "w0\<lparr>stdin := [(U ''s'')]\<rparr>"
  have h1: "safe_path cfg0 (U ''a.txt'') = Inr (ws0 @ [(U ''a.txt'')])" by code_simp
  have h2: "safe_path cfg0 (U ''b.txt'') = Inr (ws0 @ [(U ''b.txt'')])" by code_simp
  have h3: "lookup (fs ?w) (ws0 @ [(U ''a.txt'')]) = Some (File (U ''hola''))" by code_simp
  have h4: "path_exists (fs ?w) (ws0 @ [(U ''b.txt'')])" by code_simp
  have wf: "wf_fs (fs ?w)" by code_simp
  have d: "is_file (fs ?w) (ws0 @ [(U ''b.txt'')])" by code_simp
  have ne: "ws0 @ [(U ''a.txt'')] \<noteq> ws0 @ [(U ''b.txt'')]" by simp
  have ans: "str_lower lib0 (strip (U ''s'')) = U ''s''" by code_simp
  have ap: "require_approval cfg0 lib0 (U ''RENAME_FILE'') [] ?w = (Inr True, ?w\<lparr>stdin := []\<rparr>)"
    using ans by (simp add: require_approval_def input_line_def cfg0_def)
  note r = rename_onto_existing[OF h1 h2 h3 h4, where lb=lib0 and details="[]" and ?w1.0="?w\<lparr>stdin := []\<rparr>"]
  note a = r[THEN conjunct1]
  note b = r[THEN conjunct2, THEN conjunct1, rule_format, OF wf d ne ap]
  have k2: "safe_path cfg0 (U ''sub'') = Inr (ws0 @ [(U ''sub'')])" by code_simp
  have k4: "path_exists (fs ?w) (ws0 @ [(U ''sub'')])" by code_simp
  have kd: "is_dir (fs ?w) (ws0 @ [(U ''sub'')])" by code_simp
  note r2 = rename_onto_existing[OF h1 k2 h3 k4, where lb=lib0 and details="[]" and ?w1.0="?w\<lparr>stdin := []\<rparr>"]
  note e = r2[THEN conjunct2, THEN conjunct2, rule_format, OF wf kd ap]
  have msg: "exn_str lib0 (OSErr EISDIR (ws0 @ [(U ''sub'')]) None)
               = U ''[Errno 21] Is a directory: '' @ quoted (U ''/home/u/AGENT_WORKSPACE/sub'')"
    by code_simp
  have f: "fs (?w\<lparr>stdin := []\<rparr>) = fs0" by (simp add: w0_def)
  show ?thesis
    apply (intro conjI)
         apply (simp only: a fst_conv)
        apply (rule b[THEN conjunct1])
       apply (rule b[THEN conjunct2, THEN conjunct1])
      apply (rule b[THEN conjunct2, THEN conjunct2, THEN conjunct1])
     apply (simp only: e[THEN conjunct1] fst_conv msg)
    apply (simp only: e[THEN conjunct1] snd_conv f)
    done
qed

text \<open>
  The claim as stated fails for a destination that is a directory (the call returns
  \<open>ok=false\<close> and the source stays) and for a destination that is the source itself
  (the destination is unlinked first, the rename then fails, and the file is gone).
\<close>

theorem rename_onto_existing_counterexample:
  "path_exists fs0 (ws0 @ [(U ''sub'')])
   \<and> fst (tool_rename_file cfg0 lib0 (U ''a.txt'') (U ''sub'') True (w0\<lparr>stdin := [(U ''s'')]\<rparr>))
       = Inr (failure (U ''[Errno 21] Is a directory: '' @ quoted (U ''/home/u/AGENT_WORKSPACE/sub'')))
   \<and> is_file (fs (snd (tool_rename_file cfg0 lib0 (U ''a.txt'') (U ''sub'') True (w0\<lparr>stdin := [(U ''s'')]\<rparr>)))) (ws0 @ [(U ''a.txt'')])
   \<and> lookup (fs (snd (tool_rename_file cfg0 lib0 (U ''a.txt'') (U ''sub'') True (w0\<lparr>stdin := [(U ''s'')]\<rparr>)))) (ws0 @ [(U ''sub'')])
       \<noteq> Some (File (U ''hola''))
   \<and> fst (tool_rename_file cfg0 lib0 (U ''a.txt'') (U ''a.txt'') True (w0\<lparr>stdin := [(U ''s'')]\<rparr>))
       = Inr (failure (U ''[Errno 2] No such file or directory: '' @ quoted (U ''/home/u/AGENT_WORKSPACE/a.txt'')
                        @ U '' -> '' @ quoted (U ''/home/u/AGENT_WORKSPACE/a.txt'')))
   \<and> lookup (fs (snd (tool_rename_file cfg0 lib0 (U ''a.txt'') (U ''a.txt'') True (w0\<lparr>stdin := [(U ''s'')]\<rparr>)))) (ws0 @ [(U ''a.txt'')])
       = None"
  by code_simp

subsection \<open>The router's file-creation rule\<close>

lemma tool_write_file_overwrite_file:
  assumes wf: "wf_fs (fs w)" and p: "safe_path cfg path = Inr p" and f: "is_file (fs w) p"
    and ap: "require_approval cfg lb (U ''WRITE_FILE'') details w = (Inr True, w1)"
  shows "tool_write_file cfg lb path content True w =
           (if encodable content
            then (Inr [((U ''ok''), VBool True), ((U ''path''), VStr (str_path p)), ((U ''exists''), VBool True),
                       ((U ''size''), VInt (int (utf8_len (newline_out lb content))))],
                  w1\<lparr>fs := AList.update p (File (newline_out lb content)) (fs w)\<rparr>)
            else (Inl (UnicodeEncodeError (codec_error_str lb content)),
                  w1\<lparr>fs := AList.update p (File []) (fs w)\<rparr>))"
proof -
  have ap': "\<And>a d. require_approval cfg lb a d w = (Inr True, w1)"
    using ap require_approval_indep by metis
  have f1: "fs w1 = fs w" using ap by (rule require_approval_fs)
  have ne: "p \<noteq> []" using f by (rule is_file_nonroot)
  have po: "parent_error (fs w) p = None" using wf f by (simp add: wf_parent_ok is_file_exists)
  have mk: "path_mkdir (path_parent p) (fs w) = (None, fs w)"
    unfolding path_parent_def using po by (intro path_mkdir_existing parent_ok_parent)
  have nd: "\<not> is_dir (fs w) p" using f by (auto simp: is_dir_def is_file_def)
  have wr: "write_text lb p content (fs w) =
              (if encodable content
               then (None, AList.update p (File (newline_out lb content)) (fs w))
               else (Some (UnicodeEncodeError (codec_error_str lb content)),
                     AList.update p (File []) (fs w)))"
    using po nd by (simp add: write_text_def write_file_node_def)
  have l: "\<And>x. lookup (AList.update p (File x) (fs w)) p = Some (File x)"
    using ne by (simp add: lookup_update)
  show ?thesis
  proof (cases "encodable content")
    case True
    with p ap' f1 mk wr l show ?thesis
      by (simp add: tool_write_file_def path_exists_def st_size_def)
  next
    case False
    with p ap' f1 mk wr show ?thesis
      by (simp add: tool_write_file_def)
  qed
qed

lemma tool_write_file_denied:
  assumes p: "safe_path cfg path = Inr p"
    and ap: "require_approval cfg lb (U ''WRITE_FILE'') details w = (Inr False, w1)"
  shows "tool_write_file cfg lb path content True w = (Inr (failure msg_cancelled), w1)"
proof -
  have ap': "\<And>a d. require_approval cfg lb a d w = (Inr False, w1)"
    using ap require_approval_indep by metis
  show ?thesis using p ap' by (simp add: tool_write_file_def)
qed

lemma tool_write_file_no_answer:
  assumes p: "safe_path cfg path = Inr p"
    and ap: "require_approval cfg lb (U ''WRITE_FILE'') details w = (Inl e, w1)"
  shows "tool_write_file cfg lb path content True w = (Inl e, w1)"
proof -
  have ap': "\<And>a d. require_approval cfg lb a d w = (Inl e, w1)"
    using ap require_approval_indep by metis
  show ?thesis using p ap' by (simp add: tool_write_file_def)
qed

text \<open>
  C9.  When the file-creation pattern matches and its target is an existing regular file
  (in a well-formed file system), the router calls \<open>tool_write_file\<close> with
  \<open>overwrite=True\<close>.  If the single approval is granted the old content is replaced: the
  file holds the new content as a text-mode write stores it and the reply is the success
  line with the size in bytes, or, for a content that UTF-8 cannot encode, the file is
  left empty and the error of the encoder is raised.  If the approval is denied the reply
  is the cancellation and the file system is unchanged; if the prompt cannot be read the
  exception is raised.  The refusal "El archivo ya existe..." is what the same call with
  \<open>overwrite=False\<close> returns.
\<close>

theorem router_create_overwrites:
  assumes "re_crea lb (strip user_input) = Some (g1, g2)"
    and "safe_path cfg (unquote g1) = Inr p" and "is_file (fs w) p" and "wf_fs (fs w)"
  shows "(require_approval cfg lb (U ''WRITE_FILE'') details w = (Inr True, w1) \<longrightarrow>
            try_direct_command cfg lb user_input w =
              (if encodable g2
               then (Inr (Some (check_mark @ (U '' Archivo creado en: '') @ str_path p @ (U '' | existe=True'')
                          @ (U '' | size='') @ show_int (int (utf8_len (newline_out lb g2))) @ (U '' bytes''))),
                     w1\<lparr>fs := AList.update p (File (newline_out lb g2)) (fs w)\<rparr>)
               else (Inl (UnicodeEncodeError (codec_error_str lb g2)),
                     w1\<lparr>fs := AList.update p (File []) (fs w)\<rparr>))
            \<and> (\<forall>x. lookup (AList.update p (File x) (fs w)) p = Some (File x)))
       \<and> (require_approval cfg lb (U ''WRITE_FILE'') details w = (Inr False, w1) \<longrightarrow>
            try_direct_command cfg lb user_input w =
              (Inr (Some (cross_mark @ (U '' No se pudo crear: '') @ msg_cancelled)), w1)
            \<and> fs w1 = fs w)
       \<and> (require_approval cfg lb (U ''WRITE_FILE'') details w = (Inl e, w1) \<longrightarrow>
            try_direct_command cfg lb user_input w = (Inl e, w1))
       \<and> tool_write_file cfg lb (unquote g1) g2 False w = (Inr (failure msg_target_exists), w)"
proof (intro conjI impI)
  assume ap: "require_approval cfg lb (U ''WRITE_FILE'') details w = (Inr True, w1)"
  have tw: "tool_write_file cfg lb (unquote g1) g2 True w =
           (if encodable g2
            then (Inr [((U ''ok''), VBool True), ((U ''path''), VStr (str_path p)), ((U ''exists''), VBool True),
                       ((U ''size''), VInt (int (utf8_len (newline_out lb g2))))],
                  w1\<lparr>fs := AList.update p (File (newline_out lb g2)) (fs w)\<rparr>)
            else (Inl (UnicodeEncodeError (codec_error_str lb g2)),
                  w1\<lparr>fs := AList.update p (File []) (fs w)\<rparr>))"
    using assms(4,2,3) ap by (rule tool_write_file_overwrite_file)
  show "try_direct_command cfg lb user_input w =
              (if encodable g2
               then (Inr (Some (check_mark @ (U '' Archivo creado en: '') @ str_path p @ (U '' | existe=True'')
                          @ (U '' | size='') @ show_int (int (utf8_len (newline_out lb g2))) @ (U '' bytes''))),
                     w1\<lparr>fs := AList.update p (File (newline_out lb g2)) (fs w)\<rparr>)
               else (Inl (UnicodeEncodeError (codec_error_str lb g2)),
                     w1\<lparr>fs := AList.update p (File []) (fs w)\<rparr>))"
  proof (cases "encodable g2")
    case True
    with tw assms(1) show ?thesis
      by (simp add: try_direct_command_def dict_get_def truthy_def py_str_def str_bool_def U_append)
  next
    case False
    with tw assms(1) show ?thesis
      by (simp add: try_direct_command_def)
  qed
  have "p \<noteq> []" using assms(3) by (rule is_file_nonroot)
  then show "\<forall>x. lookup (AList.update p (File x) (fs w)) p = Some (File x)"
    by (simp add: lookup_update)
next
  assume ap: "require_approval cfg lb (U ''WRITE_FILE'') details w = (Inr False, w1)"
  have "tool_write_file cfg lb (unquote g1) g2 True w = (Inr (failure msg_cancelled), w1)"
    using assms(2) ap by (rule tool_write_file_denied)
  with assms(1) show "try_direct_command cfg lb user_input w =
              (Inr (Some (cross_mark @ (U '' No se pudo crear: '') @ msg_cancelled)), w1)"
    by (simp add: try_direct_command_def dict_get_def truthy_def py_str_def failure_def)
  show "fs w1 = fs w" using ap by (rule require_approval_fs)
next
  assume ap: "require_approval cfg lb (U ''WRITE_FILE'') details w = (Inl e, w1)"
  have "tool_write_file cfg lb (unquote g1) g2 True w = (Inl e, w1)"
    using assms(2) ap by (rule tool_write_file_no_answer)
  with assms(1) show "try_direct_command cfg lb user_input w = (Inl e, w1)"
    by (simp add: try_direct_command_def)
next
  show "tool_write_file cfg lb (unquote g1) g2 False w = (Inr (failure msg_target_exists), w)"
    using assms(2,3) by (simp add: tool_write_file_def is_file_exists)
qed

theorem router_create_overwrites_witness:
  "fst (try_direct_command cfg0 lib0 (U ''crea el archivo a.txt con el contenido: nuevo'')
          (w0\<lparr>stdin := [(U ''s'')]\<rparr>))
     = Inr (Some (check_mark @ (U '' Archivo creado en: /home/u/AGENT_WORKSPACE/a.txt | existe=True | size=5 bytes'')))
   \<and> lookup (fs (snd (try_direct_command cfg0 lib0 (U ''crea el archivo a.txt con el contenido: nuevo'')
          (w0\<lparr>stdin := [(U ''s'')]\<rparr>)))) (ws0 @ [(U ''a.txt'')]) = Some (File (U ''nuevo''))
   \<and> lookup fs0 (ws0 @ [(U ''a.txt'')]) = Some (File (U ''hola''))"
proof -
  let ?w = "w0\<lparr>stdin := [(U ''s'')]\<rparr>"
  let ?u = "(U ''crea el archivo a.txt con el contenido: nuevo'')"
  have st: "strip ?u = ?u" by code_simp
  have h1: "re_crea lib0 (strip ?u) = Some ((U ''a.txt''), (U ''nuevo''))"
    unfolding st by (simp add: lib0_def)
  have h2: "safe_path cfg0 (unquote (U ''a.txt'')) = Inr (ws0 @ [(U ''a.txt'')])" by code_simp
  have h3: "is_file (fs ?w) (ws0 @ [(U ''a.txt'')])" by code_simp
  have h4: "wf_fs (fs ?w)" by code_simp
  have ans: "str_lower lib0 (strip (U ''s'')) = U ''s''" by code_simp
  have ap: "require_approval cfg0 lib0 (U ''WRITE_FILE'') [] ?w = (Inr True, ?w\<lparr>stdin := []\<rparr>)"
    using ans by (simp add: require_approval_def input_line_def cfg0_def)
  note r = router_create_overwrites[OF h1 h2 h3 h4, where details="[]" and ?w1.0="?w\<lparr>stdin := []\<rparr>"
             and e=EOFError]
  note a = r[THEN conjunct1, rule_format, OF ap]
  have enc: "encodable (U ''nuevo'')" by code_simp
  have nl: "newline_out lib0 (U ''nuevo'') = U ''nuevo''" by code_simp
  have sp: "str_path (ws0 @ [(U ''a.txt'')]) = (U ''/home/u/AGENT_WORKSPACE/a.txt'')" by code_simp
  have sz: "show_int (int (utf8_len (U ''nuevo''))) = (U ''5'')" by code_simp
  have old: "lookup fs0 (ws0 @ [(U ''a.txt'')]) = Some (File (U ''hola''))" by code_simp
  have f: "fs ?w = fs0" by (simp add: w0_def)
  have tail: "U '' Archivo creado en: /home/u/AGENT_WORKSPACE/a.txt | existe=True | size=5 bytes''
              = U '' Archivo creado en: '' @ U ''/home/u/AGENT_WORKSPACE/a.txt'' @ U '' | existe=True''
                @ U '' | size='' @ U ''5'' @ U '' bytes''"
    by code_simp
  have res: "try_direct_command cfg0 lib0 ?u ?w =
               (Inr (Some (check_mark @ (U '' Archivo creado en: /home/u/AGENT_WORKSPACE/a.txt | existe=True | size=5 bytes''))),
                ?w\<lparr>stdin := [], fs := AList.update (ws0 @ [(U ''a.txt'')]) (File (U ''nuevo'')) (fs ?w)\<rparr>)"
    using a[THEN conjunct1] by (simp only: enc if_True nl sp sz tail)
  have lk: "lookup (AList.update (ws0 @ [(U ''a.txt'')]) (File (U ''nuevo'')) (fs ?w)) (ws0 @ [(U ''a.txt'')])
              = Some (File (U ''nuevo''))"
    using a[THEN conjunct2] by (rule spec)
  show ?thesis
    using res lk old by simp
qed

subsection \<open>InferenceClient\<close>

lemma call_loop_all_fail:
  assumes "\<forall>k<n. \<exists>e. attempt lb (endpoint w (posts w + k)) = Inl e"
  shows "\<exists>r. call_loop lb prompt n last_err w =
           (Inl r, w\<lparr>posts := posts w + n, events := events w @ backoff_trace prompt n\<rparr>)
         \<and> (if n = 0 then r = last_err
            else \<exists>e. r = Some e \<and> attempt lb (endpoint w (posts w + (n - 1))) = Inl e)"
  using assms
proof (induction n arbitrary: w last_err)
  case 0
  then show ?case by (simp add: backoff_trace_def)
next
  case (Suc n)
  from Suc.prems obtain e where e: "attempt lb (endpoint w (posts w)) = Inl e"
    by (metis add.right_neutral zero_less_Suc)
  let ?w1 = "w\<lparr>posts := posts w + 1, events := events w @ [EvPost prompt]\<rparr>"
  let ?w2 = "?w1\<lparr>events := events ?w1 @ [EvSleep]\<rparr>"
  have step: "call_loop lb prompt (Suc n) last_err w = call_loop lb prompt n (Some e) ?w2"
    using e by (simp add: Let_def)
  have pre: "\<forall>k<n. \<exists>e. attempt lb (endpoint ?w2 (posts ?w2 + k)) = Inl e"
  proof (intro allI impI)
    fix k assume "k < n"
    then have "Suc k < Suc n" by simp
    with Suc.prems obtain e' where "attempt lb (endpoint w (posts w + Suc k)) = Inl e'" by blast
    then show "\<exists>e. attempt lb (endpoint ?w2 (posts ?w2 + k)) = Inl e" by simp
  qed
  from Suc.IH[OF pre, of "Some e"] obtain r where
    r: "call_loop lb prompt n (Some e) ?w2 =
          (Inl r, ?w2\<lparr>posts := posts ?w2 + n, events := events ?w2 @ backoff_trace prompt n\<rparr>)"
    and last: "if n = 0 then r = Some e
               else \<exists>e'. r = Some e' \<and> attempt lb (endpoint ?w2 (posts ?w2 + (n - 1))) = Inl e'"
    by blast
  have w: "?w2\<lparr>posts := posts ?w2 + n, events := events ?w2 @ backoff_trace prompt n\<rparr>
           = w\<lparr>posts := posts w + Suc n, events := events w @ backoff_trace prompt (Suc n)\<rparr>"
    by (simp add: backoff_trace_def)
  have "\<exists>e'. r = Some e' \<and> attempt lb (endpoint w (posts w + n)) = Inl e'"
  proof (cases "n = 0")
    case True
    with last e show ?thesis by simp
  next
    case False
    with last obtain e' where "r = Some e'"
      and "attempt lb (endpoint ?w2 (posts ?w2 + (n - 1))) = Inl e'" by auto
    with False show ?thesis by simp
  qed
  with step r w show ?case by simp
qed

text \<open>
  C7.  When every request fails with a network error or a status other than 200,
  \<open>call_ollama\<close> makes exactly \<open>RETRIES + 1\<close> requests, each followed by one back-off
  sleep (so one lies between any two of them), and then raises the RuntimeError "No se
  pudo contactar con Ollama: ..." that carries the error of the last attempt.
\<close>

theorem call_ollama_exhausts_retries:
  assumes "\<forall>n. case endpoint w n of NetError m \<Rightarrow> True | Response status body \<Rightarrow> status \<noteq> 200"
  shows "\<exists>e. call_ollama cfg lb prompt w =
               (Inl (RuntimeError ((U ''No se pudo contactar con Ollama: '') @ exn_str lb e)),
                w\<lparr>posts := posts w + (RETRIES cfg + 1),
                  events := events w @ backoff_trace prompt (RETRIES cfg + 1)\<rparr>)
             \<and> attempt lb (endpoint w (posts w + RETRIES cfg)) = Inl e"
proof -
  have "\<And>n. \<exists>e. attempt lb (endpoint w n) = Inl e"
  proof -
    fix n
    from assms have "case endpoint w n of NetError m \<Rightarrow> True | Response status body \<Rightarrow> status \<noteq> 200"
      by blast
    then show "\<exists>e. attempt lb (endpoint w n) = Inl e"
      by (cases "endpoint w n") (simp_all add: attempt_def)
  qed
  then have "\<forall>k<RETRIES cfg + 1. \<exists>e. attempt lb (endpoint w (posts w + k)) = Inl e" by blast
  from call_loop_all_fail[OF this, of prompt None] obtain r e where
    "call_loop lb prompt (RETRIES cfg + 1) None w =
           (Inl r, w\<lparr>posts := posts w + (RETRIES cfg + 1),
                     events := events w @ backoff_trace prompt (RETRIES cfg + 1)\<rparr>)"
    and "r = Some e" and "attempt lb (endpoint w (posts w + RETRIES cfg)) = Inl e"
    by auto
  then show ?thesis by (auto simp: call_ollama_def)
qed

theorem call_ollama_exhausts_retries_witness:
  "fst (call_ollama cfg0 lib0 (U ''hola'') w0)
     = Inl (RuntimeError (U ''No se pudo contactar con Ollama: HTTP 500: boom''))
   \<and> posts (snd (call_ollama cfg0 lib0 (U ''hola'') w0)) = 3
   \<and> events (snd (call_ollama cfg0 lib0 (U ''hola'') w0))
     = [EvPost (U ''hola''), EvSleep, EvPost (U ''hola''), EvSleep, EvPost (U ''hola''), EvSleep]"
proof -
  have h: "\<forall>n. case endpoint w0 n of NetError m \<Rightarrow> True | Response status body \<Rightarrow> status \<noteq> 200"
    by (simp add: w0_def)
  from call_ollama_exhausts_retries[OF h, where cfg=cfg0 and lb=lib0 and prompt="(U ''hola'')"] obtain e where
    ce: "call_ollama cfg0 lib0 (U ''hola'') w0 =
               (Inl (RuntimeError ((U ''No se pudo contactar con Ollama: '') @ exn_str lib0 e)),
                w0\<lparr>posts := posts w0 + (RETRIES cfg0 + 1),
                  events := events w0 @ backoff_trace (U ''hola'') (RETRIES cfg0 + 1)\<rparr>)
         \<and> attempt lib0 (endpoint w0 (posts w0 + RETRIES cfg0)) = Inl e" ..
  note c = ce[THEN conjunct1] and a = ce[THEN conjunct2]
  have "attempt lib0 (endpoint w0 (posts w0 + RETRIES cfg0))
          = Inl (RuntimeError (U ''HTTP 500: boom''))" by code_simp
  with a have e: "e = RuntimeError (U ''HTTP 500: boom'')" by simp
  have n: "RETRIES cfg0 + 1 = Suc (Suc (Suc 0))" by (simp add: cfg0_def)
  show ?thesis unfolding c e n by (simp add: backoff_trace_def w0_def U_append)
qed

subsection \<open>ActionProtocol\<close>

lemma tool_calls_append [simp]: "tool_calls (xs @ ys) = tool_calls xs @ tool_calls ys"
  by (simp add: tool_calls_def)

lemma tool_calls_simps [simp]:
  "tool_calls [] = []" "tool_calls (EvPost p # es) = tool_calls es"
  "tool_calls (EvSleep # es) = tool_calls es" "tool_calls (EvTool n # es) = n # tool_calls es"
  by (simp_all add: tool_calls_def)

lemma call_loop_frame:
  "call_loop lb prompt n last_err w = (r, w') \<Longrightarrow>
     fs w' = fs w \<and> stdin w' = stdin w \<and> memory w' = memory w
     \<and> tool_calls (events w') = tool_calls (events w)"
proof (induction n arbitrary: w last_err)
  case 0
  then show ?case by simp
next
  case (Suc n)
  show ?case
  proof (cases "attempt lb (endpoint w (posts w))")
    case (Inr out)
    with Suc.prems show ?thesis by (auto simp: Let_def)
  next
    case (Inl e)
    let ?w2 = "w\<lparr>posts := posts w + 1, events := events w @ [EvPost prompt]\<rparr>
                 \<lparr>events := events (w\<lparr>posts := posts w + 1, events := events w @ [EvPost prompt]\<rparr>) @ [EvSleep]\<rparr>"
    from Inl Suc.prems have "call_loop lb prompt n (Some e) ?w2 = (r, w')"
      by (simp add: Let_def)
    from Suc.IH[OF this] show ?thesis by simp
  qed
qed

lemma call_ollama_frame:
  assumes "call_ollama cfg lb prompt w = (r, w')"
  shows "fs w' = fs w \<and> stdin w' = stdin w \<and> memory w' = memory w
         \<and> tool_calls (events w') = tool_calls (events w)"
proof -
  obtain r0 w0' where c: "call_loop lb prompt (RETRIES cfg + 1) None w = (r0, w0')"
    by (cases "call_loop lb prompt (RETRIES cfg + 1) None w")
  with assms have "w' = w0'" by (auto simp: call_ollama_def split: sum.splits)
  with call_loop_frame[OF c] show ?thesis by simp
qed

lemma try_direct_command_None:
  assumes "try_direct_command cfg lb user_input w = (Inr None, w1)"
  shows "w1 = w"
  using assms
  by (auto simp: try_direct_command_def Let_def split: option.splits prod.splits sum.splits if_splits)

text \<open>
  C8 (amended).  When no direct command matches and the model's text, stripped of
  surrounding white space, does not begin with \<open>{\<close> or makes \<open>json.loads\<close> raise (which
  accepts a little more than well-formed JSON, \<open>NaN\<close> for one), the turn returns the
  stripped text as the reply, whatever the registry holds: no tool is called, the file
  system and the operator's input are untouched, and nothing is raised.
\<close>

theorem plain_text_reply:
  assumes "try_direct_command cfg lb user_input w = (Inr None, w1)"
    and "call_ollama cfg lb (build_prompt cfg (memory w1) user_input) w1 = (Inr (VStr text0), w2)"
    and "\<not> startswith (strip text0) (U ''{'') \<or> json_loads lb (strip text0) = None"
  shows "run_agent_turn cfg lb tools user_input w = (Inr (strip text0), w2)
       \<and> tool_calls (events w2) = tool_calls (events w)
       \<and> fs w2 = fs w \<and> stdin w2 = stdin w"
proof -
  have pa: "parse_action lb text0 = None"
    using assms(3) by (auto simp: parse_action_def Let_def)
  have "run_agent_turn cfg lb tools user_input w = (Inr (strip text0), w2)"
    using assms(1,2) pa by (simp add: run_agent_turn_def)
  moreover have "w1 = w" using assms(1) by (rule try_direct_command_None)
  moreover note call_ollama_frame[OF assms(2)]
  ultimately show ?thesis by simp
qed

theorem plain_text_reply_witness:
  "fst (run_agent_turn cfg0 lib1 no_tools (U ''hola'') w_plain) = Inr (U ''no es json'')
   \<and> tool_calls (events (snd (run_agent_turn cfg0 lib1 no_tools (U ''hola'') w_plain))) = []
   \<and> fs (snd (run_agent_turn cfg0 lib1 no_tools (U ''hola'') w_plain)) = fs0"
proof -
  let ?w1 = "snd (try_direct_command cfg0 lib1 (U ''hola'') w_plain)"
  let ?c = "call_ollama cfg0 lib1 (build_prompt cfg0 (memory ?w1) (U ''hola'')) ?w1"
  have "fst (try_direct_command cfg0 lib1 (U ''hola'') w_plain) = Inr None" by code_simp
  then have h1: "try_direct_command cfg0 lib1 (U ''hola'') w_plain = (Inr None, ?w1)"
    by (cases "try_direct_command cfg0 lib1 (U ''hola'') w_plain") simp
  have "fst ?c = Inr (VStr (U '' no es json ''))" by code_simp
  then have h2: "?c = (Inr (VStr (U '' no es json '')), snd ?c)"
    by (cases ?c) simp
  have h3: "\<not> startswith (strip (U '' no es json '')) (U ''{'')
            \<or> json_loads lib1 (strip (U '' no es json '')) = None" by code_simp
  have st: "strip (U '' no es json '') = (U ''no es json'')" by code_simp
  have e: "tool_calls (events w_plain) = []" by (simp add: w_plain_def w0_def)
  have f: "fs w_plain = fs0" by (simp add: w_plain_def w0_def)
  note t = plain_text_reply[OF h1 h2 h3, of no_tools]
  show ?thesis
    apply (intro conjI)
      apply (simp only: t[THEN conjunct1] fst_conv st)
     apply (simp only: t[THEN conjunct1] snd_conv t[THEN conjunct2, THEN conjunct1] e)
    apply (simp only: t[THEN conjunct1] snd_conv t[THEN conjunct2, THEN conjunct2, THEN conjunct1] f)
    done
qed

text \<open>
  The claim as stated fails twice.  A text with surrounding blanks does not begin with
  \<open>{\<close> and is returned stripped, not verbatim.  A text that begins with a no-break
  space and then an action object does not begin with \<open>{\<close> either, yet it is decoded and
  answered as the action says.
\<close>

theorem plain_text_reply_counterexample:
  "\<not> startswith (U '' no es json '') (U ''{'')
   \<and> fst (call_ollama cfg0 lib1 (build_prompt cfg0 [] (U ''hola'')) w_plain) = Inr (VStr (U '' no es json ''))
   \<and> fst (run_agent_turn cfg0 lib1 no_tools (U ''hola'') w_plain) = Inr (U ''no es json'')
   \<and> (U ''no es json'') \<noteq> (U '' no es json '')
   \<and> \<not> startswith braced_text (U ''{'')
   \<and> fst (call_ollama cfg0 lib1 (build_prompt cfg0 [] (U ''hola'')) w_braced) = Inr (VStr braced_text)
   \<and> fst (run_agent_turn cfg0 lib1 no_tools (U ''hola'') w_braced) = Inr (U ''hi'')
   \<and> (U ''hi'') \<noteq> braced_text"
  by code_simp

subsection \<open>Tool results and exceptions\<close>

lemma safe_path_Inl: "safe_path cfg path = Inl e \<Longrightarrow> e = ValueError msg_outside"
  by (auto simp: safe_path_def Let_def split: if_splits)

lemma dispatch_tool_raises:
  assumes "dict_get d (U ''tool_name'') VNone = VStr name" and "tools name = Some tool"
    and "tool (let a = dict_get d (U ''args'') (VDict []) in if truthy a then a else VDict [])
              (w\<lparr>events := events w @ [EvTool name]\<rparr>) = (Inl (ValueError m), w')"
  shows "dispatch_tool cfg lb tools user_input d w =
           (Inr ((U ''Error ejecutando '') @ name @ (U '': '') @ m), w')"
  using assms by (simp add: dispatch_tool_def Let_def)

text \<open>
  C2 (amended).  A path argument that \<open>safe_path\<close> rejects makes \<open>write_file\<close>,
  \<open>read_file\<close>, \<open>delete_file\<close>, \<open>rename_file\<close> (for either path), \<open>list_files\<close> and
  \<open>organize_folder\<close> raise the ValueError of \<open>safe_path\<close> to the caller, with the world
  untouched: no ToolResult is returned.  The dispatcher of \<open>run_agent_turn\<close> catches the
  exception of a tool it has called and answers "Error ejecutando <tool>: <message>".
\<close>

theorem path_escape_raises:
  assumes "safe_path cfg path = Inl e"
  shows "e = ValueError msg_outside
       \<and> tool_write_file cfg lb path content ov w = (Inl e, w)
       \<and> tool_read_file cfg path m w = (Inl e, w)
       \<and> tool_delete_file cfg lb path w = (Inl e, w)
       \<and> tool_rename_file cfg lb path other ov w = (Inl e, w)
       \<and> (\<forall>sp. safe_path cfg other = Inr sp \<longrightarrow> tool_rename_file cfg lb other path ov w = (Inl e, w))
       \<and> (path \<noteq> [] \<longrightarrow> tool_list_files cfg lb path w = (Inl e, w))
       \<and> (path \<noteq> [] \<longrightarrow> mode = (U ''move'') \<or> mode = (U ''copy'') \<longrightarrow>
             tool_organize_folder cfg lb path mode w = (Inl e, w))
       \<and> (\<forall>d name tool w'. dict_get d (U ''tool_name'') VNone = VStr name \<longrightarrow> tools name = Some tool \<longrightarrow>
             tool (let a = dict_get d (U ''args'') (VDict []) in if truthy a then a else VDict [])
                  (w\<lparr>events := events w @ [EvTool name]\<rparr>) = (Inl e, w') \<longrightarrow>
             dispatch_tool cfg lb tools user_input d w =
               (Inr ((U ''Error ejecutando '') @ name @ (U '': '') @ msg_outside), w'))"
proof -
  have e: "e = ValueError msg_outside" using assms by (rule safe_path_Inl)
  have 1: "tool_write_file cfg lb path content ov w = (Inl e, w)"
    using assms by (simp add: tool_write_file_def)
  have 2: "tool_read_file cfg path m w = (Inl e, w)"
    using assms by (simp add: tool_read_file_def)
  have 3: "tool_delete_file cfg lb path w = (Inl e, w)"
    using assms by (simp add: tool_delete_file_def)
  have 4: "tool_rename_file cfg lb path other ov w = (Inl e, w)"
    using assms by (simp add: tool_rename_file_def)
  have 5: "\<forall>sp. safe_path cfg other = Inr sp \<longrightarrow> tool_rename_file cfg lb other path ov w = (Inl e, w)"
    using assms by (simp add: tool_rename_file_def)
  have 6: "path \<noteq> [] \<longrightarrow> tool_list_files cfg lb path w = (Inl e, w)"
    using assms by (simp add: tool_list_files_def)
  have 7: "path \<noteq> [] \<longrightarrow> mode = (U ''move'') \<or> mode = (U ''copy'') \<longrightarrow>
             tool_organize_folder cfg lb path mode w = (Inl e, w)"
    using assms by (auto simp: tool_organize_folder_def)
  have 8: "\<forall>d name tool w'. dict_get d (U ''tool_name'') VNone = VStr name \<longrightarrow> tools name = Some tool \<longrightarrow>
             tool (let a = dict_get d (U ''args'') (VDict []) in if truthy a then a else VDict [])
                  (w\<lparr>events := events w @ [EvTool name]\<rparr>) = (Inl e, w') \<longrightarrow>
             dispatch_tool cfg lb tools user_input d w =
               (Inr ((U ''Error ejecutando '') @ name @ (U '': '') @ msg_outside), w')"
    unfolding e by (intro allI impI) (rule dispatch_tool_raises)
  from e 1 2 3 4 5 6 7 8 show ?thesis by (intro conjI)
qed

theorem path_escape_raises_witness:
  "fst (tool_write_file cfg0 lib0 (U ''../../etc/passwd'') (U ''x'') True w0) = Inl (ValueError msg_outside)
   \<and> fst (tool_read_file cfg0 (U ''../../etc/passwd'') 6000 w0) = Inl (ValueError msg_outside)
   \<and> fst (dispatch_tool cfg0 lib0 read_only_tools (U ''lee'') escape_action w0)
       = Inr ((U ''Error ejecutando read_file: '') @ msg_outside)"
proof -
  let ?p = "(U ''../../etc/passwd'')"
  let ?w1 = "w0\<lparr>events := events w0 @ [EvTool (U ''read_file'')]\<rparr>"
  have h: "safe_path cfg0 ?p = Inl (ValueError msg_outside)" by code_simp
  note t = path_escape_raises[OF h, where content="(U ''x'')" and ov=True and w=w0 and m=6000
                 and tools=read_only_tools and lb=lib0 and user_input="(U ''lee'')"]
  have a: "dict_get escape_action (U ''tool_name'') VNone = VStr (U ''read_file'')" by code_simp
  have b: "read_only_tools (U ''read_file'')
             = Some (\<lambda>args w. case args of
                        VDict a \<Rightarrow> (case map_of a (U ''path'') of
                                      Some (VStr p) \<Rightarrow> tool_read_file cfg0 p 6000 w
                                    | _ \<Rightarrow> (Inl (TypeError (U ''missing path'')), w))
                      | _ \<Rightarrow> (Inl (TypeError (U ''argument after ** must be a mapping'')), w))"
    by (simp add: read_only_tools_def)
  have args: "(let a = dict_get escape_action (U ''args'') (VDict []) in if truthy a then a else VDict [])
               = VDict [((U ''path''), VStr ?p)]" by code_simp
  have r: "tool_read_file cfg0 ?p 6000 ?w1 = (Inl (ValueError msg_outside), ?w1)"
    using h by (simp add: tool_read_file_def)
  have c: "(\<lambda>args w. case args of
                        VDict a \<Rightarrow> (case map_of a (U ''path'') of
                                      Some (VStr p) \<Rightarrow> tool_read_file cfg0 p 6000 w
                                    | _ \<Rightarrow> (Inl (TypeError (U ''missing path'')), w))
                      | _ \<Rightarrow> (Inl (TypeError (U ''argument after ** must be a mapping'')), w))
             (let a = dict_get escape_action (U ''args'') (VDict []) in if truthy a then a else VDict [])
             ?w1 = (Inl (ValueError msg_outside), ?w1)"
    unfolding args using r by simp
  note d = t[THEN conjunct2, THEN conjunct2, THEN conjunct2, THEN conjunct2, THEN conjunct2,
             THEN conjunct2, THEN conjunct2, THEN conjunct2, rule_format, OF a b c]
  show ?thesis
    apply (intro conjI)
      apply (simp only: t[THEN conjunct2, THEN conjunct1] fst_conv)
     apply (simp only: t[THEN conjunct2, THEN conjunct2, THEN conjunct1] fst_conv)
    apply (simp add: d U_append)
    done
qed

text \<open>
  The claim as stated fails: with a path that resolves outside the workspace (and does
  not share the root's name as a prefix) \<open>tool_write_file\<close> raises instead of returning a
  ToolResult; so does \<open>tool_read_file\<close> on a directory.
\<close>

theorem path_escape_raises_counterexample:
  "fst (tool_write_file cfg0 lib0 (U ''../../etc/passwd'') (U ''x'') True w0) = Inl (ValueError msg_outside)
   \<and> fst (tool_read_file cfg0 (U ''sub'') 6000 w0) = Inl (OSErr EISDIR (ws0 @ [U ''sub'']) None)"
  by code_simp

subsection \<open>organize_folder\<close>

lemma path_exists_root [simp]: "path_exists f []"
  by (simp add: path_exists_def lookup_def)

lemma update_absent: "k \<notin> fst ` set f \<Longrightarrow> AList.update k v f = f @ [(k, v)]"
  by (induction f) auto

lemma not_exists_absent: "\<not> path_exists f p \<Longrightarrow> p \<notin> fst ` set f"
  by (auto simp: path_exists_def lookup_def map_of_eq_None_iff split: if_splits)

lemma os_mkdir_Inr:
  assumes "os_mkdir p f = Inr f'"
  shows "f' = AList.update p Dir f" and "parent_error f p = None" and "\<not> path_exists f p"
  using assms by (auto simp: os_mkdir_def split: option.splits if_splits)

lemma os_mkdir_Inl:
  assumes "os_mkdir p f = Inl e"
  shows "parent_error f p = Some e \<or> (parent_error f p = None \<and> path_exists f p \<and> e = EEXIST)"
  using assms by (auto simp: os_mkdir_def split: option.splits if_splits)

lemma wf_update_new:
  assumes wf: "wf_fs f" and po: "parent_error f p = None" and ne: "\<not> path_exists f p"
  shows "wf_fs (AList.update p n f)"
proof -
  have p: "p \<noteq> []" using ne by auto
  have ab: "p \<notin> fst ` set f" using ne by (rule not_exists_absent)
  have d: "distinct (map fst (AList.update p n f))"
    using wf by (simp add: wf_fs_def distinct_update)
  have "\<And>q m. (q, m) \<in> set (AList.update p n f) \<Longrightarrow>
           q \<noteq> [] \<and> parent_error (AList.update p n f) q = None"
  proof -
    fix q m assume "(q, m) \<in> set (AList.update p n f)"
    then have c: "(q, m) \<in> set f \<or> q = p" by (auto simp: update_absent[OF ab])
    have q: "q \<noteq> [] \<and> parent_error f q = None"
      using c wf po p by (auto simp: wf_fs_def)
    have "\<not> strict_prefix p q"
    proof
      assume "strict_prefix p q"
      with q have "is_dir f p" by (simp add: parent_ok_iff)
      with ne show False by (simp add: is_dir_def path_exists_def)
    qed
    with p q show "q \<noteq> [] \<and> parent_error (AList.update p n f) q = None"
      by (simp add: parent_ok_update)
  qed
  with d show ?thesis by (auto simp: wf_fs_def)
qed

lemma os_mkdir_ok:
  assumes "wf_fs f" and "os_mkdir p f = Inr f'"
  shows "wf_fs f'" and "is_dir f' p" and "\<And>q. path_exists f q \<Longrightarrow> lookup f' q = lookup f q"
proof -
  note m = os_mkdir_Inr[OF assms(2)]
  have p: "p \<noteq> []" using m(3) by auto
  show "wf_fs f'" unfolding m(1) using assms(1) m(2,3) by (rule wf_update_new)
  show "is_dir f' p" unfolding m(1) using p by (simp add: is_dir_def lookup_update)
  show "\<And>q. path_exists f q \<Longrightarrow> lookup f' q = lookup f q"
    unfolding m(1) using p m(3) by (auto simp: lookup_update)
qed

lemma wf_is_dir_reachable: "wf_fs f \<Longrightarrow> is_dir f p \<Longrightarrow> parent_error f p = None"
  by (rule wf_parent_ok) (simp_all add: is_dir_def path_exists_def)

lemma path_mkdir_ok:
  "wf_fs f \<Longrightarrow> path_mkdir p f = (None, f') \<Longrightarrow>
     wf_fs f' \<and> is_dir f' p \<and> (\<forall>q. path_exists f q \<longrightarrow> lookup f' q = lookup f q)"
proof (induction p f arbitrary: f' rule: path_mkdir.induct)
  case (1 p f)
  show ?case
  proof (cases "os_mkdir p f")
    case (Inr g)
    with "1.prems"(2) have "f' = g" by (subst (asm) path_mkdir.simps) simp
    with os_mkdir_ok[OF "1.prems"(1) Inr] show ?thesis by simp
  next
    case (Inl e)
    show ?thesis
    proof (cases "e = ENOENT")
      case False
      with Inl "1.prems"(2) have "is_dir f p \<and> f' = f"
        by (subst (asm) path_mkdir.simps) (simp split: if_splits)
      with "1.prems"(1) show ?thesis by simp
    next
      case True
      with Inl "1.prems"(2) have pne: "p \<noteq> []"
        by (subst (asm) path_mkdir.simps) (auto split: if_splits)
      obtain eo g where rec: "path_mkdir (butlast p) f = (eo, g)"
        by (cases "path_mkdir (butlast p) f")
      from Inl True pne rec "1.prems"(2) have eo: "eo = None"
        by (subst (asm) path_mkdir.simps) (auto split: option.splits)
      from "1.IH"[OF Inl True pne "1.prems"(1) rec[unfolded eo]]
      have g: "wf_fs g" "\<forall>q. path_exists f q \<longrightarrow> lookup g q = lookup f q" by simp_all
      show ?thesis
      proof (cases "os_mkdir p g")
        case (Inr h)
        with Inl True pne rec eo "1.prems"(2) have "f' = h"
          by (subst (asm) path_mkdir.simps) simp
        note ok = os_mkdir_ok[OF g(1) Inr]
        have "\<forall>q. path_exists f q \<longrightarrow> lookup h q = lookup f q"
        proof (intro allI impI)
          fix q assume q: "path_exists f q"
          with g(2) have "lookup g q = lookup f q" by blast
          moreover from this q have "path_exists g q" by (simp add: path_exists_def)
          ultimately show "lookup h q = lookup f q" using ok(3) by simp
        qed
        with ok(1,2) \<open>f' = h\<close> show ?thesis by simp
      next
        case e2: (Inl e2)
        with Inl True pne rec eo "1.prems"(2) have "is_dir g p \<and> f' = g"
          by (subst (asm) path_mkdir.simps) (simp split: if_splits)
        with g show ?thesis by simp
      qed
    qed
  qed
qed

lemma mkdir_all_ok:
  "wf_fs f \<Longrightarrow> mkdir_all ds f = (None, f') \<Longrightarrow>
     wf_fs f' \<and> (\<forall>d \<in> set ds. is_dir f' d) \<and> (\<forall>q. path_exists f q \<longrightarrow> lookup f' q = lookup f q)"
proof (induction ds arbitrary: f)
  case Nil
  then show ?case by simp
next
  case (Cons d ds)
  obtain eo g where m: "path_mkdir d f = (eo, g)" by (cases "path_mkdir d f")
  with Cons.prems(2) have eo: "eo = None" and rest: "mkdir_all ds g = (None, f')"
    by (auto split: option.splits)
  from path_mkdir_ok[OF Cons.prems(1) m[unfolded eo]]
  have g: "wf_fs g" "is_dir g d" "\<forall>q. path_exists f q \<longrightarrow> lookup g q = lookup f q" by simp_all
  from Cons.IH[OF g(1) rest]
  have f': "wf_fs f'" "\<forall>d \<in> set ds. is_dir f' d" "\<forall>q. path_exists g q \<longrightarrow> lookup f' q = lookup g q"
    by simp_all
  have "is_dir f' d" using g(2) f'(3) by (simp add: is_dir_def path_exists_def)
  moreover have "\<forall>q. path_exists f q \<longrightarrow> lookup f' q = lookup f q"
  proof (intro allI impI)
    fix q assume q: "path_exists f q"
    with g(3) have "lookup g q = lookup f q" by blast
    moreover from this q have "path_exists g q" by (simp add: path_exists_def)
    ultimately show "lookup f' q = lookup f q" using f'(3) by simp
  qed
  ultimately show ?case using f'(1,2) by simp
qed

lemma dest_folder_in: "dest_folder_of x \<in> set category_folders"
proof (cases "find (\<lambda>(g, exts). x \<in> set exts) EXT_GROUPS")
  case None
  then show ?thesis by (simp add: dest_folder_of_def category_folders_def)
next
  case (Some ge)
  then obtain i where "i < length EXT_GROUPS" and "EXT_GROUPS ! i = ge"
    unfolding find_Some_iff by blast
  then have "ge \<in> set EXT_GROUPS" using nth_mem by fastforce
  then have "fst ge \<in> fst ` set EXT_GROUPS" by (rule imageI)
  with Some show ?thesis
    by (cases ge) (simp add: dest_folder_of_def category_folders_def)
qed

lemma reach_child:
  assumes "parent_error f p = None" and "is_dir f p"
  shows "parent_error f (p @ [x]) = None"
  unfolding parent_ok_iff
proof (intro allI impI)
  fix q assume "strict_prefix q (p @ [x])"
  then have "prefix q p" by (auto simp: strict_prefix_def)
  then have "q = p \<or> strict_prefix q p" by (auto simp: strict_prefix_def)
  with assms show "is_dir f q" by (auto simp: parent_ok_iff)
qed

lemma folders_ready_base:
  assumes "folders_ready f base"
  shows "is_dir f base" and "parent_error f base = None"
proof -
  have "(U ''otros'') \<in> set category_folders" by (simp add: category_folders_def)
  with assms have "parent_error f (base @ [(U ''otros'')]) = None" by (simp add: folders_ready_def)
  from parent_ok_parent[OF this] show "is_dir f base" and "parent_error f base = None"
    by simp_all
qed

lemma step_stuck:
  assumes "stuck lb f base q"
  shows "organize_step lb (U ''move'') base q (f, mv, sk) = (f, mv, if is_file f q then sk + 1 else sk)"
proof (cases "is_file f q")
  case False
  then show ?thesis by (simp add: organize_step_def)
next
  case True
  show ?thesis
  proof (cases "resolve (dest_of lb base q) = resolve q")
    case eq: True
    with True show ?thesis by (simp add: organize_step_def dest_of_def Let_def)
  next
    case ne: False
    with True assms have d: "is_dir f (dest_of lb base q)"
      and e: "path_exists f (dest_of lb base q @ [path_name q])"
      by (auto simp: stuck_def)
    from ne have "q \<noteq> dest_of lb base q" by auto
    with d e have "\<exists>err. shutil_move q (dest_of lb base q) f = (Some err, f)"
      by (simp add: shutil_move_def Let_def)
    then obtain err where "shutil_move q (dest_of lb base q) f = (Some err, f)" ..
    with True ne show ?thesis
      by (simp add: organize_step_def Let_def dest_of_def[symmetric])
  qed
qed

lemma step_moves:
  assumes fr: "folders_ready f base" and q: "q \<noteq> []" "butlast q = base" and ns: "\<not> stuck lb f base q"
  shows "\<exists>c real. lookup f q = Some (File c)
           \<and> (real = dest_of lb base q \<or> real = dest_of lb base q @ [path_name q])
           \<and> organize_step lb (U ''move'') base q (f, mv, sk) =
               (AList.update real (File c) (AList.delete q f),
                mv @ [VDict [((U ''from''), VStr (path_name q)),
                             ((U ''to''), VStr (dest_folder_of (str_lower lb (suffix_of (path_name q)))
                                            @ (U ''/'') @ path_name q))]],
                sk)"
proof -
  let ?g = "dest_folder_of (str_lower lb (suffix_of (path_name q)))"
  let ?d = "dest_of lb base q"
  from ns have isf: "is_file f q" and ne: "resolve ?d \<noteq> resolve q"
    and free: "\<not> (is_dir f ?d \<and> path_exists f (?d @ [path_name q]))"
    by (auto simp: stuck_def)
  from isf obtain c where c: "lookup f q = Some (File c)" by (auto simp: is_file_lookup)
  have qb: "base @ [path_name q] = q"
    using q append_butlast_last_id[of q] by (auto simp: path_name_def)
  note b = folders_ready_base[OF fr]
  have pq: "parent_error f q = None"
    using reach_child[OF b(2) b(1), of "path_name q"] by (simp only: qb)
  have g: "is_dir f (base @ [?g])" "parent_error f (base @ [?g]) = None"
    using fr dest_folder_in by (auto simp: folders_ready_def)
  have pd: "parent_error f ?d = None"
    using reach_child[OF g(2) g(1), of "path_name q"] by (simp add: dest_of_def)
  have lq: "length q = length base + 1"
    using arg_cong[OF qb, of length] by simp
  have len: "length ?d = length q + 1" using lq by (simp add: dest_of_def)
  have l1: "length q \<noteq> length ?d" and l2: "length q \<noteq> length (?d @ [path_name q])"
    using len by simp_all
  have qd1: "q \<noteq> ?d" using l1 by metis
  have qd2: "q \<noteq> ?d @ [path_name q]" using l2 by metis
  note qd = qd1 qd2
  define real where "real = (if is_dir f ?d then ?d @ [path_name q] else ?d)"
  have pr: "parent_error f real = None"
    using pd reach_child[OF pd] by (simp add: real_def)
  have nd: "\<not> is_dir f real"
    using free by (auto simp: real_def is_dir_def path_exists_def)
  have qr: "q \<noteq> real" using qd by (simp add: real_def)
  have rn: "os_rename q real f = Inr (AList.update real (File c) (AList.delete q f))"
    using pq c pr nd qr by (simp add: os_rename_def)
  have mt: "move_to q real f = (None, AList.update real (File c) (AList.delete q f))"
    using rn by (simp add: move_to_def)
  have sm: "shutil_move q ?d f = (None, AList.update real (File c) (AList.delete q f))"
  proof (cases "is_dir f ?d")
    case True
    with free have "\<not> path_exists f (?d @ [path_name q])" by simp
    with True qd mt show ?thesis by (simp add: shutil_move_def Let_def real_def)
  next
    case False
    with mt show ?thesis by (simp add: shutil_move_def real_def)
  qed
  have "organize_step lb (U ''move'') base q (f, mv, sk) =
               (AList.update real (File c) (AList.delete q f),
                mv @ [VDict [((U ''from''), VStr (path_name q)), ((U ''to''), VStr (?g @ (U ''/'') @ path_name q))]],
                sk)"
    using isf ne sm by (simp add: organize_step_def Let_def dest_of_def[symmetric])
  moreover have "real = ?d \<or> real = ?d @ [path_name q]" by (simp add: real_def)
  ultimately show ?thesis using c by blast
qed

lemma lookup_moved:
  assumes "real \<noteq> []"
  shows "lookup (AList.update real v (AList.delete q f)) y =
           (if y = real then Some v else if y = q \<and> y \<noteq> [] then None else lookup f y)"
  using assms by (simp add: lookup_update lookup_delete)

lemma delete_dom: "fst ` set (AList.delete q f) = fst ` set f - {q}"
proof -
  have "set (map fst (AList.delete q f)) = set (map fst f) - {q}"
    by (simp add: delete_keys)
  then show ?thesis by simp
qed

lemma child_shape: "x \<in> set (children f base) \<Longrightarrow> x \<noteq> [] \<and> butlast x = base"
  by (simp add: children_def)

lemma child_name: "(x::path) \<noteq> [] \<Longrightarrow> butlast x = base \<Longrightarrow> base @ [path_name x] = x"
  using append_butlast_last_id[of x] by (auto simp: path_name_def)

lemma child_length: "(x::path) \<noteq> [] \<Longrightarrow> butlast x = base \<Longrightarrow> length x = length base + 1"
  by (cases x rule: rev_cases) auto

lemma dest_length: "length (dest_of lb base q) = length base + 2"
  by (simp add: dest_of_def)

lemma dest_last: "last (dest_of lb base q) = path_name q"
  by (simp add: dest_of_def)

lemma is_dir_moved:
  assumes "is_dir f x" and "is_file f q" and "x \<noteq> real" and "real \<noteq> []"
  shows "is_dir (AList.update real v (AList.delete q f)) x"
proof -
  from assms(1,2) have "x \<noteq> q" by (auto simp: is_dir_def is_file_def)
  with assms show ?thesis by (simp add: is_dir_def lookup_moved)
qed

lemma folders_ready_moved:
  assumes fr: "folders_ready f base" and qf: "is_file f q" and len: "length base + 2 \<le> length real"
  shows "folders_ready (AList.update real v (AList.delete q f)) base"
  unfolding folders_ready_def
proof (intro ballI conjI)
  fix d assume d: "d \<in> set category_folders"
  from len have rne: "real \<noteq> []" by auto
  from fr d have a: "is_dir f (base @ [d])" and b: "parent_error f (base @ [d]) = None"
    by (simp_all add: folders_ready_def)
  have "length (base @ [d]) \<noteq> length real" using len by simp
  then have "base @ [d] \<noteq> real" by metis
  with a qf rne show "is_dir (AList.update real v (AList.delete q f)) (base @ [d])"
    by (intro is_dir_moved)
  show "parent_error (AList.update real v (AList.delete q f)) (base @ [d]) = None"
    unfolding parent_ok_iff
  proof (intro allI impI)
    fix x assume x: "strict_prefix x (base @ [d])"
    with b have xd: "is_dir f x" by (simp add: parent_ok_iff)
    from x have "prefix x base" by (auto simp: strict_prefix_def)
    then have "length x \<le> length base" by (rule prefix_length_le)
    with len have "length x \<noteq> length real" by simp
    then have "x \<noteq> real" by metis
    with xd qf rne show "is_dir (AList.update real v (AList.delete q f)) x"
      by (intro is_dir_moved)
  qed
qed

lemma stuck_moved:
  assumes x: "x \<noteq> []" "butlast x = base" and q: "q \<noteq> []" "butlast q = base"
    and qf: "is_file f q"
    and real: "real = dest_of lb base q \<or> real = dest_of lb base q @ [path_name q]"
    and st: "x = q \<or> stuck lb f base x"
  shows "stuck lb (AList.update real v (AList.delete q f)) base x"
proof -
  let ?f' = "AList.update real v (AList.delete q f)"
  have rl: "length real = length base + 2 \<or> length real = length base + 3"
    using real by (auto simp: dest_length)
  then have rne: "real \<noteq> []" by auto
  have lx: "length x = length base + 1" using x by (rule child_length)
  have lq: "length q = length base + 1" using q by (rule child_length)
  have "length x \<noteq> length real" using rl lx by linarith
  then have xr: "x \<noteq> real" by metis
  have "length q \<noteq> length real" using rl lq by linarith
  then have qr: "q \<noteq> real" by metis
  show ?thesis
  proof (cases "x = q")
    case True
    with qr q(1) rne have "lookup ?f' x = None" by (simp add: lookup_moved)
    then show ?thesis by (simp add: stuck_def is_file_def)
  next
    case False
    with st have s: "stuck lb f base x" by simp
    have lx': "lookup ?f' x = lookup f x" using xr False rne by (simp add: lookup_moved)
    have nm: "path_name x \<noteq> path_name q"
    proof
      assume "path_name x = path_name q"
      then have "base @ [path_name x] = base @ [path_name q]" by (simp only:)
      then have "x = q" unfolding child_name[OF x] child_name[OF q] .
      with False show False by simp
    qed
    have "last (dest_of lb base x) \<noteq> last (dest_of lb base q)" using nm by (simp add: dest_last)
    then have dd: "dest_of lb base x \<noteq> dest_of lb base q" by metis
    have "length (dest_of lb base x) \<noteq> length (dest_of lb base q @ [path_name q])"
      by (simp add: dest_length)
    then have dd2: "dest_of lb base x \<noteq> dest_of lb base q @ [path_name q]" by metis
    have dr: "dest_of lb base x \<noteq> real" using real dd dd2 by auto
    have "length (dest_of lb base x) \<noteq> length q" using lq by (simp add: dest_length)
    then have dq: "dest_of lb base x \<noteq> q" by metis
    have ld: "lookup ?f' (dest_of lb base x) = lookup f (dest_of lb base x)"
      using dr dq rne by (simp add: lookup_moved)
    have "length (dest_of lb base x @ [path_name x]) \<noteq> length q" using lq by (simp add: dest_length)
    then have eq: "dest_of lb base x @ [path_name x] \<noteq> q" by metis
    have le: "path_exists f (dest_of lb base x @ [path_name x])
              \<Longrightarrow> path_exists ?f' (dest_of lb base x @ [path_name x])"
      using eq rne by (simp add: path_exists_def lookup_moved)
    from s show ?thesis
      unfolding stuck_def is_file_def is_dir_def using lx' ld le by auto
  qed
qed

lemma children_moved:
  assumes q: "q \<noteq> []" and real: "real = dest_of lb base q \<or> real = dest_of lb base q @ [path_name q]"
    and x: "x \<in> set (children (AList.update real v (AList.delete q f)) base)"
  shows "x \<in> set (children f base) \<and> x \<noteq> q"
proof -
  from x have sh: "x \<noteq> []" "butlast x = base"
    and k: "x \<in> fst ` set (AList.update real v (AList.delete q f))"
    by (auto simp: children_def)
  have "length x = length base + 1" using sh by (rule child_length)
  moreover have "length real = length base + 2 \<or> length real = length base + 3"
    using real by (auto simp: dest_length)
  ultimately have "length x \<noteq> length real" by linarith
  then have "x \<noteq> real" by metis
  with k have "x \<in> fst ` set (AList.delete q f)" by (simp add: dom_update)
  then have "x \<in> fst ` set f" and "x \<noteq> q" by (simp_all add: delete_dom)
  with sh show ?thesis by (auto simp: children_def)
qed

lemma organize_loop_settles:
  "folders_ready f base \<Longrightarrow> \<forall>p \<in> set ps. p \<noteq> [] \<and> butlast p = base \<Longrightarrow>
   \<forall>x \<in> set (children f base). x \<in> set ps \<or> stuck lb f base x \<Longrightarrow>
   organize_loop lb (U ''move'') base ps (f, mv, sk) = (f', mv', sk') \<Longrightarrow>
   folders_ready f' base \<and> (\<forall>x \<in> set (children f' base). stuck lb f' base x)"
proof (induction ps arbitrary: f mv sk)
  case Nil
  then show ?case by simp
next
  case (Cons p ps)
  from Cons.prems(2) have p: "p \<noteq> []" "butlast p = base" by simp_all
  show ?case
  proof (cases "stuck lb f base p")
    case True
    from step_stuck[OF True] Cons.prems(4)
    have l: "organize_loop lb (U ''move'') base ps (f, mv, if is_file f p then sk + 1 else sk) = (f', mv', sk')"
      by simp
    have "\<forall>x \<in> set (children f base). x \<in> set ps \<or> stuck lb f base x"
      using Cons.prems(3) True by auto
    with Cons.IH[OF Cons.prems(1) _ _ l] Cons.prems(2) show ?thesis by simp
  next
    case False
    from step_moves[OF Cons.prems(1) p False, of mv sk] obtain c real ent where
      c: "lookup f p = Some (File c)"
      and real: "real = dest_of lb base p \<or> real = dest_of lb base p @ [path_name p]"
      and st: "organize_step lb (U ''move'') base p (f, mv, sk)
                 = (AList.update real (File c) (AList.delete p f), mv @ [ent], sk)"
      by blast
    let ?g = "AList.update real (File c) (AList.delete p f)"
    have pf: "is_file f p" using c by (simp add: is_file_lookup)
    have rl: "length base + 2 \<le> length real" using real by (auto simp: dest_length)
    have fr: "folders_ready ?g base" using Cons.prems(1) pf rl by (rule folders_ready_moved)
    have inv: "\<forall>x \<in> set (children ?g base). x \<in> set ps \<or> stuck lb ?g base x"
    proof
      fix x assume x: "x \<in> set (children ?g base)"
      from children_moved[OF p(1) real x] have xc: "x \<in> set (children f base)" and xp: "x \<noteq> p"
        by simp_all
      from child_shape[OF xc] have sh: "x \<noteq> []" "butlast x = base" by simp_all
      from Cons.prems(3) xc xp have "x \<in> set ps \<or> stuck lb f base x" by auto
      then show "x \<in> set ps \<or> stuck lb ?g base x"
      proof
        assume "x \<in> set ps" then show ?thesis ..
      next
        assume "stuck lb f base x"
        then have "x = p \<or> stuck lb f base x" ..
        from stuck_moved[OF sh p pf real this] show ?thesis ..
      qed
    qed
    from st Cons.prems(4)
    have l: "organize_loop lb (U ''move'') base ps (?g, mv @ [ent], sk) = (f', mv', sk')" by simp
    from Cons.IH[OF fr _ inv l] Cons.prems(2) show ?thesis by simp
  qed
qed

lemma organize_loop_stuck:
  "\<forall>p \<in> set ps. stuck lb f base p \<Longrightarrow>
   \<exists>k. organize_loop lb (U ''move'') base ps (f, mv, sk) = (f, mv, k)"
proof (induction ps arbitrary: sk)
  case Nil
  then show ?case by simp
next
  case (Cons p ps)
  then have "stuck lb f base p" by simp
  from step_stuck[OF this, of mv sk] Cons.IH[of "if is_file f p then sk + 1 else sk"] Cons.prems
  show ?case by simp
qed

lemma mkdir_all_existing:
  "\<forall>d \<in> set ds. is_dir f d \<and> parent_error f d = None \<Longrightarrow> mkdir_all ds f = (None, f)"
  by (induction ds) (simp_all add: path_mkdir_existing)

lemma organize_ok_shape:
  assumes "tool_organize_folder cfg lb subdir (U ''move'') w = (Inr res, w1)"
    and "dict_get res (U ''ok'') VNone = VBool True"
  shows "\<exists>base wa f1 mv sk.
           (if subdir \<noteq> [] then safe_path cfg subdir else Inr (WORKSPACE cfg)) = Inr base
         \<and> (\<forall>a d. require_approval cfg lb a d w = (Inr True, wa))
         \<and> mkdir_all (map (\<lambda>d. base @ [d]) category_folders) (fs wa) = (None, f1)
         \<and> organize_loop lb (U ''move'') base (children f1 base) (f1, [], 0) = (fs w1, mv, sk)"
proof (cases "if subdir \<noteq> [] then safe_path cfg subdir else Inr (WORKSPACE cfg)")
  case (Inl e)
  with assms(1) show ?thesis by (simp add: tool_organize_folder_def)
next
  case (Inr base)
  show ?thesis
  proof (cases "path_exists (fs w) base")
    case False
    with Inr assms show ?thesis by (auto simp: tool_organize_folder_def failure_def dict_get_def)
  next
    case ex: True
    obtain ra wa where ra: "\<And>a d. require_approval cfg lb a d w = (ra, wa)"
      by (cases "require_approval cfg lb [] [] w") (simp add: require_approval_def)
    show ?thesis
    proof (cases ra)
      case (Inl e)
      with Inr ex ra assms(1) show ?thesis by (simp add: tool_organize_folder_def)
    next
      case ok: (Inr ok)
      show ?thesis
      proof (cases ok)
        case False
        with Inr ex ra ok assms show ?thesis
          by (auto simp: tool_organize_folder_def failure_def dict_get_def)
      next
        case True
        obtain eo f1 where mk: "mkdir_all (map (\<lambda>d. base @ [d]) category_folders) (fs wa) = (eo, f1)"
          by (cases "mkdir_all (map (\<lambda>d. base @ [d]) category_folders) (fs wa)")
        show ?thesis
        proof (cases eo)
          case (Some e)
          with Inr ex ra ok True mk assms(1) show ?thesis by (simp add: tool_organize_folder_def)
        next
          case None
          show ?thesis
          proof (cases "iterdir base f1")
            case (Inl e)
            with Inr ex ra ok True mk None assms(1) show ?thesis
              by (simp add: tool_organize_folder_def)
          next
            case ps: (Inr ps)
            then have pc: "ps = children f1 base"
              by (auto simp: iterdir_def split: option.splits node.splits)
            obtain f2 mv sk where lp: "organize_loop lb (U ''move'') base ps (f1, [], 0) = (f2, mv, sk)"
              by (cases "organize_loop lb (U ''move'') base ps (f1, [], 0)")
            with Inr ex ra ok True mk None ps assms(1) have fw: "fs w1 = f2"
              by (auto simp: tool_organize_folder_def)
            have A: "\<forall>a d. require_approval cfg lb a d w = (Inr True, wa)"
              using ra ok True by simp
            have B: "mkdir_all (map (\<lambda>d. base @ [d]) category_folders) (fs wa) = (None, f1)"
              using mk None by simp
            have C: "organize_loop lb (U ''move'') base (children f1 base) (f1, [], 0) = (fs w1, mv, sk)"
              using lp pc fw by simp
            show ?thesis
              using Inr A B C
              by (intro exI[of _ base] exI[of _ wa] exI[of _ f1] exI[of _ mv] exI[of _ sk] conjI)
          qed
        qed
      qed
    qed
  qed
qed

text \<open>
  C6.  In a well-formed file system, after a run of \<open>tool_organize_folder\<close> in move mode
  that returned \<open>ok=true\<close>, a second run on the same directory with approval granted
  returns \<open>ok=true\<close> with \<open>moved_count = 0\<close> and an empty list of moves, and leaves the
  file system as the first run left it.  (What is still directly under the directory
  cannot be moved, and is counted as skipped again.)
\<close>

theorem organize_twice:
  assumes "wf_fs (fs w)"
    and "tool_organize_folder cfg lb subdir (U ''move'') w = (Inr res1, w1)"
    and "dict_get res1 (U ''ok'') VNone = VBool True"
    and "require_approval cfg lb (U ''ORGANIZE_FOLDER'') details w1 = (Inr True, w2)"
  shows "\<exists>k. tool_organize_folder cfg lb subdir (U ''move'') w1 =
               (Inr [((U ''ok''), VBool True), ((U ''moved_count''), VInt 0),
                     ((U ''skipped''), VInt (int k)), ((U ''moved''), VList [])], w2)
             \<and> fs w2 = fs w1"
proof -
  from organize_ok_shape[OF assms(2,3)] obtain base wa f1 mv sk where
    b: "(if subdir \<noteq> [] then safe_path cfg subdir else Inr (WORKSPACE cfg)) = Inr base"
    and ap1: "\<forall>a d. require_approval cfg lb a d w = (Inr True, wa)"
    and mk: "mkdir_all (map (\<lambda>d. base @ [d]) category_folders) (fs wa) = (None, f1)"
    and lp: "organize_loop lb (U ''move'') base (children f1 base) (f1, [], 0) = (fs w1, mv, sk)"
    by blast
  from ap1 have "fs wa = fs w" using require_approval_fs by blast
  with assms(1) have "wf_fs (fs wa)" by simp
  from mkdir_all_ok[OF this mk]
  have wf1: "wf_fs f1" and dirs: "\<forall>d \<in> set (map (\<lambda>d. base @ [d]) category_folders). is_dir f1 d"
    by simp_all
  have fr1: "folders_ready f1 base"
    unfolding folders_ready_def
  proof (intro ballI conjI)
    fix d assume "d \<in> set category_folders"
    with dirs show "is_dir f1 (base @ [d])" by simp
    with wf1 show "parent_error f1 (base @ [d]) = None" by (rule wf_is_dir_reachable)
  qed
  have sh: "\<forall>p \<in> set (children f1 base). p \<noteq> [] \<and> butlast p = base"
    using child_shape by blast
  have "\<forall>x \<in> set (children f1 base). x \<in> set (children f1 base) \<or> stuck lb f1 base x" by simp
  from organize_loop_settles[OF fr1 sh this lp]
  have fr: "folders_ready (fs w1) base"
    and st: "\<forall>x \<in> set (children (fs w1) base). stuck lb (fs w1) base x" by simp_all
  have f2: "fs w2 = fs w1" using assms(4) by (rule require_approval_fs)
  have ap2: "\<And>a d. require_approval cfg lb a d w1 = (Inr True, w2)"
    using assms(4) require_approval_indep by metis
  note bd = folders_ready_base[OF fr]
  have ex: "path_exists (fs w1) base" using bd(1) by (simp add: is_dir_def path_exists_def)
  have "\<forall>d \<in> set (map (\<lambda>d. base @ [d]) category_folders).
          is_dir (fs w1) d \<and> parent_error (fs w1) d = None"
    using fr by (simp add: folders_ready_def)
  then have mk2: "mkdir_all (map (\<lambda>d. base @ [d]) category_folders) (fs w2) = (None, fs w1)"
    unfolding f2 by (rule mkdir_all_existing)
  have it: "iterdir base (fs w1) = Inr (children (fs w1) base)"
    using bd by (simp add: iterdir_def is_dir_def)
  from organize_loop_stuck[OF st, of "[]" 0] obtain k where
    lp2: "organize_loop lb (U ''move'') base (children (fs w1) base) (fs w1, [], 0) = (fs w1, [], k)" ..
  have w2: "w2\<lparr>fs := fs w1\<rparr> = w2" using f2 by simp
  have "tool_organize_folder cfg lb subdir (U ''move'') w1 =
               (Inr [((U ''ok''), VBool True), ((U ''moved_count''), VInt 0),
                     ((U ''skipped''), VInt (int k)), ((U ''moved''), VList [])], w2)"
    using b ex ap2 mk2 it lp2 w2 by (simp add: tool_organize_folder_def)
  with f2 show ?thesis by blast
qed

theorem organize_twice_witness:
  "fst (tool_organize_folder cfg0 lib0 [] (U ''move'') (w0\<lparr>stdin := [(U ''s''), (U ''s'')]\<rparr>))
     = Inr [((U ''ok''), VBool True), ((U ''moved_count''), VInt 2), ((U ''skipped''), VInt 0),
            ((U ''moved''), VList [VDict [((U ''from''), VStr (U ''a.txt'')), ((U ''to''), VStr (U ''docs/a.txt''))],
                               VDict [((U ''from''), VStr (U ''b.txt'')), ((U ''to''), VStr (U ''docs/b.txt''))]])]
   \<and> fst (tool_organize_folder cfg0 lib0 [] (U ''move'') w_organized)
     = Inr [((U ''ok''), VBool True), ((U ''moved_count''), VInt 0), ((U ''skipped''), VInt 0),
            ((U ''moved''), VList [])]
   \<and> fs (snd (tool_organize_folder cfg0 lib0 [] (U ''move'') w_organized)) = fs w_organized"
proof -
  let ?w = "w0\<lparr>stdin := [(U ''s''), (U ''s'')]\<rparr>"
  let ?res1 = "[((U ''ok''), VBool True), ((U ''moved_count''), VInt 2), ((U ''skipped''), VInt 0),
            ((U ''moved''), VList [VDict [((U ''from''), VStr (U ''a.txt'')), ((U ''to''), VStr (U ''docs/a.txt''))],
                               VDict [((U ''from''), VStr (U ''b.txt'')), ((U ''to''), VStr (U ''docs/b.txt''))]])]"
  have h1: "wf_fs (fs ?w)" by code_simp
  have r1: "fst (tool_organize_folder cfg0 lib0 [] (U ''move'') ?w) = Inr ?res1" by code_simp
  then have h2: "tool_organize_folder cfg0 lib0 [] (U ''move'') ?w = (Inr ?res1, w_organized)"
    unfolding w_organized_def by (cases "tool_organize_folder cfg0 lib0 [] (U ''move'') ?w") simp
  have h3: "dict_get ?res1 (U ''ok'') VNone = VBool True" by code_simp
  have si: "stdin w_organized = [(U ''s'')]" by code_simp
  have ans: "str_lower lib0 (strip (U ''s'')) = U ''s''" by code_simp
  have h4: "require_approval cfg0 lib0 (U ''ORGANIZE_FOLDER'') [] w_organized
              = (Inr True, w_organized\<lparr>stdin := []\<rparr>)"
    using ans si by (simp add: require_approval_def input_line_def cfg0_def)
  from organize_twice[OF h1 h2 h3 h4] obtain k where
    e: "tool_organize_folder cfg0 lib0 [] (U ''move'') w_organized =
               (Inr [((U ''ok''), VBool True), ((U ''moved_count''), VInt 0),
                     ((U ''skipped''), VInt (int k)), ((U ''moved''), VList [])], w_organized\<lparr>stdin := []\<rparr>)
        \<and> fs (w_organized\<lparr>stdin := []\<rparr>) = fs w_organized" ..
  have c: "fst (tool_organize_folder cfg0 lib0 [] (U ''move'') w_organized)
     = Inr [((U ''ok''), VBool True), ((U ''moved_count''), VInt 0), ((U ''skipped''), VInt 0),
            ((U ''moved''), VList [])]" by code_simp
  have d: "fs (snd (tool_organize_folder cfg0 lib0 [] (U ''move'') w_organized)) = fs w_organized"
    by (simp only: e[THEN conjunct1] snd_conv e[THEN conjunct2])
  from r1 c d show ?thesis by (intro conjI)
qed

end
